theory Spec2Isabelle
  imports
    Main
    "HOL-Library.Log_Nat"
    "HOL-Library.Char_ord"
    "HOL-Library.List_Lexorder"
begin

section \<open>Python values used by the sales analytics pipeline\<close>

text \<open>
  The pipeline of \<^verbatim>\<open>utils/file_handler.py\<close>, \<^verbatim>\<open>utils/data_processor.py\<close> and
  \<^verbatim>\<open>utils/api_handler.py\<close> works on Python strings, unbounded integers and floats.
  Strings are \<^typ>\<open>string\<close> (code points below 256), integers are \<^typ>\<open>int\<close>.
  Exceptions are values of \<open>pyerr\<close>; a fallible operation returns \<open>pyerr + 'a\<close>.
\<close>

datatype pyerr = ValueError | OverflowError | ZeroDivisionError | KeyError

subsection \<open>Floats\<close>

text \<open>
  A Python float is an IEEE binary64 value: a finite number (kept as the rational it
  denotes), one of the two infinities, or NaN. The sign of zero is not kept: no operation
  of the modelled functions can tell \<^verbatim>\<open>-0.0\<close> from \<^verbatim>\<open>0.0\<close> (division by either raises,
  comparisons treat them as equal). Arithmetic rounds the exact result to the nearest
  binary64 value, ties to even, as the hardware does.
\<close>

datatype pyfloat = Fin rat | PInf | NInf | NaN

definition pow2 :: "int \<Rightarrow> rat" where
  "pow2 k = (if 0 \<le> k then 2 ^ nat k else 1 / 2 ^ nat (- k))"

definition round_half_even :: "rat \<Rightarrow> int" where
  "round_half_even x =
     (let f = \<lfloor>x\<rfloor>; d = x - of_int f
      in if d < 1 / 2 then f
         else if 1 / 2 < d then f + 1
         else if even f then f else f + 1)"

text \<open>
  \<open>ilog2 a\<close> is the exponent \<open>e\<close> with \<open>2^e \<le> a < 2^(e+1)\<close>, for positive \<open>a\<close>; the
  bit lengths of numerator and denominator give it up to one.
\<close>

definition ilog2 :: "rat \<Rightarrow> int" where
  "ilog2 a =
     (let (n, d) = quotient_of a;
          k = bitlen n - bitlen d
      in if pow2 k \<le> a then k else k - 1)"

text \<open>
  Rounding a rational to binary64: 53 significant bits, exponents from \<open>-1022\<close> (below
  it the spacing stays \<open>2^-1074\<close>). With \<open>e\<close> the exponent of the value and \<open>m\<close> the
  rounded significand, the result is \<open>m * 2^p\<close>; it overflows to an infinity when it
  reaches \<open>2^1024\<close>, that is, when \<open>e\<close> is at least 1024, or \<open>e\<close> is 1023 and the
  significand rounds up to \<open>2^53\<close>.
\<close>

definition dbl_round :: "rat \<Rightarrow> pyfloat" where
  "dbl_round q =
     (if q = 0 then Fin 0
      else let a = \<bar>q\<bar>;
               e = ilog2 a;
               p = max e (- 1022) - 52;
               m = round_half_even (a / pow2 p)
           in if 1024 \<le> e \<or> (e = 1023 \<and> m = 2 ^ 53)
              then (if 0 < q then PInf else NInf)
              else Fin ((if 0 < q then 1 else - 1) * of_int m * pow2 p))"

text \<open>Comparisons: every comparison with NaN is false.\<close>

fun fl_le :: "pyfloat \<Rightarrow> pyfloat \<Rightarrow> bool" where
  "fl_le NaN _ = False"
| "fl_le _ NaN = False"
| "fl_le NInf _ = True"
| "fl_le _ PInf = True"
| "fl_le (Fin a) (Fin b) = (a \<le> b)"
| "fl_le PInf _ = False"
| "fl_le _ NInf = False"

fun fl_lt :: "pyfloat \<Rightarrow> pyfloat \<Rightarrow> bool" where
  "fl_lt NaN _ = False"
| "fl_lt _ NaN = False"
| "fl_lt (Fin a) (Fin b) = (a < b)"
| "fl_lt PInf _ = False"
| "fl_lt _ NInf = False"
| "fl_lt NInf _ = True"
| "fl_lt _ PInf = True"

definition fl_ge :: "pyfloat \<Rightarrow> pyfloat \<Rightarrow> bool" where
  "fl_ge a b = fl_le b a"

definition fl_gt :: "pyfloat \<Rightarrow> pyfloat \<Rightarrow> bool" where
  "fl_gt a b = fl_lt b a"

text \<open>Sign of a float, as an integer in \<open>{-1, 0, 1}\<close> (NaN has none and is handled before).\<close>

fun fl_sgn :: "pyfloat \<Rightarrow> int" where
  "fl_sgn (Fin a) = (if a < 0 then - 1 else if a = 0 then 0 else 1)"
| "fl_sgn PInf = 1"
| "fl_sgn NInf = - 1"
| "fl_sgn NaN = 0"

fun fl_add :: "pyfloat \<Rightarrow> pyfloat \<Rightarrow> pyfloat" where
  "fl_add NaN _ = NaN"
| "fl_add _ NaN = NaN"
| "fl_add (Fin a) (Fin b) = dbl_round (a + b)"
| "fl_add PInf NInf = NaN"
| "fl_add NInf PInf = NaN"
| "fl_add PInf _ = PInf"
| "fl_add _ PInf = PInf"
| "fl_add NInf _ = NInf"
| "fl_add _ NInf = NInf"

fun fl_mul :: "pyfloat \<Rightarrow> pyfloat \<Rightarrow> pyfloat" where
  "fl_mul NaN _ = NaN"
| "fl_mul _ NaN = NaN"
| "fl_mul (Fin a) (Fin b) = dbl_round (a * b)"
| "fl_mul x y =
     (if fl_sgn x * fl_sgn y = 0 then NaN
      else if 0 < fl_sgn x * fl_sgn y then PInf else NInf)"

text \<open>Float division raises \<^verbatim>\<open>ZeroDivisionError\<close> on a zero divisor.\<close>

fun fl_div :: "pyfloat \<Rightarrow> pyfloat \<Rightarrow> pyerr + pyfloat" where
  "fl_div NaN (Fin b) = (if b = 0 then Inl ZeroDivisionError else Inr NaN)"
| "fl_div NaN _ = Inr NaN"
| "fl_div _ NaN = Inr NaN"
| "fl_div (Fin a) (Fin b) = (if b = 0 then Inl ZeroDivisionError else Inr (dbl_round (a / b)))"
| "fl_div (Fin a) _ = Inr (Fin 0)"
| "fl_div x (Fin b) =
     (if b = 0 then Inl ZeroDivisionError
      else Inr (if 0 < fl_sgn x * fl_sgn (Fin b) then PInf else NInf))"
| "fl_div _ _ = Inr NaN"

text \<open>
  \<^verbatim>\<open>int * float\<close>: the integer is converted to the nearest float first, which raises
  \<^verbatim>\<open>OverflowError\<close> when the integer is too large for a float; the product itself never
  raises.
\<close>

definition int_to_float :: "int \<Rightarrow> pyerr + pyfloat" where
  "int_to_float n =
     (case dbl_round (of_int n) of
        Fin r \<Rightarrow> Inr (Fin r)
      | _ \<Rightarrow> Inl OverflowError)"

definition int_mul_float :: "int \<Rightarrow> pyfloat \<Rightarrow> pyerr + pyfloat" where
  "int_mul_float n x =
     (case int_to_float n of
        Inl e \<Rightarrow> Inl e
      | Inr y \<Rightarrow> Inr (fl_mul y x))"

text \<open>
  \<^verbatim>\<open>round(x, 2)\<close>: the exact value of \<open>x\<close> is rounded to two decimals, ties to even, and
  the decimal result is converted back to the nearest float. Infinities and NaN round to
  themselves.
\<close>

fun py_round2 :: "pyfloat \<Rightarrow> pyfloat" where
  "py_round2 (Fin a) = dbl_round (of_int (round_half_even (a * 100)) / 100)"
| "py_round2 x = x"

subsection \<open>Strings\<close>

text \<open>The characters \<^verbatim>\<open>str.strip()\<close> removes: the Unicode whitespace below 256.\<close>

definition is_space :: "char \<Rightarrow> bool" where
  "is_space c =
     (let n = (of_char c :: nat)
      in (9 \<le> n \<and> n \<le> 13) \<or> (28 \<le> n \<and> n \<le> 32) \<or> n = 133 \<or> n = 160)"

definition py_strip :: "string \<Rightarrow> string" where
  "py_strip s = rev (dropWhile is_space (rev (dropWhile is_space s)))"

text \<open>\<^verbatim>\<open>s.split(sep)\<close> for a one-character separator: never the empty list.\<close>

fun py_split :: "char \<Rightarrow> string \<Rightarrow> string list" where
  "py_split sep [] = [[]]"
| "py_split sep (c # cs) =
     (if c = sep then [] # py_split sep cs
      else (case py_split sep cs of
              f # fs \<Rightarrow> (c # f) # fs
            | [] \<Rightarrow> [[c]]))"

definition py_replace :: "char \<Rightarrow> string \<Rightarrow> string \<Rightarrow> string" where
  "py_replace old new s = concat (map (\<lambda>c. if c = old then new else [c]) s)"

definition startswith :: "string \<Rightarrow> char \<Rightarrow> bool" where
  "startswith s p = (case s of [] \<Rightarrow> False | c # _ \<Rightarrow> c = p)"

definition is_digit :: "char \<Rightarrow> bool" where
  "is_digit c = (c \<in> set ''0123456789'')"

definition digit_val :: "char \<Rightarrow> int" where
  "digit_val c = int (of_char c) - 48"

definition digits_val :: "string \<Rightarrow> int" where
  "digits_val ds = foldl (\<lambda>acc c. 10 * acc + digit_val c) 0 ds"

subsection \<open>Numeric conversion of strings\<close>

text \<open>
  \<^verbatim>\<open>int(s)\<close> and \<^verbatim>\<open>float(s)\<close> skip whitespace at both ends; for these two it is the
  ASCII whitespace and the two non-ASCII spaces below 256 (the separators 28 to 31 are
  stripped by \<^verbatim>\<open>str.strip()\<close> but not accepted by the numeric conversions).
\<close>

definition is_num_space :: "char \<Rightarrow> bool" where
  "is_num_space c =
     (let n = (of_char c :: nat)
      in (9 \<le> n \<and> n \<le> 13) \<or> n = 32 \<or> n = 133 \<or> n = 160)"

definition num_strip :: "string \<Rightarrow> string" where
  "num_strip s = rev (dropWhile is_num_space (rev (dropWhile is_num_space s)))"

text \<open>
  A single underscore is allowed between two digits. \<open>drop_underscores prev s\<close> removes
  them, or fails when an underscore is not between digits; \<open>prev\<close> is the character before.
\<close>

fun drop_underscores :: "char \<Rightarrow> string \<Rightarrow> string option" where
  "drop_underscores prev [] = (if prev = CHR ''_'' then None else Some [])"
| "drop_underscores prev (c # cs) =
     (if c = CHR ''_'' then (if is_digit prev then drop_underscores c cs else None)
      else if prev = CHR ''_'' \<and> \<not> is_digit c then None
      else map_option ((#) c) (drop_underscores c cs))"

text \<open>An optional sign in front: \<open>(negative, rest)\<close>.\<close>

definition split_sign :: "string \<Rightarrow> bool \<times> string" where
  "split_sign s =
     (case s of
        [] \<Rightarrow> (False, [])
      | c # r \<Rightarrow> if c = CHR ''-'' then (True, r)
                 else if c = CHR ''+'' then (False, r)
                 else (False, s))"

text \<open>
  \<^verbatim>\<open>int(s)\<close> in base 10. The interpreter refuses a numeral of more than
  \<^verbatim>\<open>sys.get_int_max_str_digits()\<close> digits (when that limit is not 0, and only beyond 640
  digits); the limit is the parameter \<open>maxd\<close>.
\<close>

definition py_int :: "nat \<Rightarrow> string \<Rightarrow> pyerr + int" where
  "py_int maxd s =
     (let (neg, body) = split_sign (num_strip s)
      in case drop_underscores (CHR 0x00) body of
           None \<Rightarrow> Inl ValueError
         | Some ds \<Rightarrow>
             if ds = [] \<or> \<not> list_all is_digit ds then Inl ValueError
             else if 640 < length ds \<and> 0 < maxd \<and> maxd < length ds then Inl ValueError
             else Inr ((if neg then - 1 else 1) * digits_val ds))"

text \<open>
  \<^verbatim>\<open>float(s)\<close>: an optional sign, then \<^verbatim>\<open>inf\<close>, \<^verbatim>\<open>infinity\<close> or \<^verbatim>\<open>nan\<close> in any
  letter case, or a decimal numeral (digits, an optional point, at least one digit in
  all, an optional exponent). The decimal value is rounded to the nearest float; a value
  too large becomes an infinity, no error.
\<close>

definition lower_char :: "char \<Rightarrow> char" where
  "lower_char c =
     (let n = (of_char c :: nat) in if 65 \<le> n \<and> n \<le> 90 then char_of (n + 32) else c)"

definition pow10 :: "int \<Rightarrow> rat" where
  "pow10 k = (if 0 \<le> k then 10 ^ nat k else 1 / 10 ^ nat (- k))"

definition parse_exponent :: "string \<Rightarrow> int option" where
  "parse_exponent r =
     (case r of
        [] \<Rightarrow> Some 0
      | c # r1 \<Rightarrow>
          if c = CHR ''e'' \<or> c = CHR ''E'' then
            (let (neg, ds) = split_sign r1
             in if ds \<noteq> [] \<and> list_all is_digit ds
                then Some ((if neg then - 1 else 1) * digits_val ds)
                else None)
          else None)"

definition py_float :: "string \<Rightarrow> pyerr + pyfloat" where
  "py_float s =
     (case drop_underscores (CHR 0x00) (num_strip s) of
        None \<Rightarrow> Inl ValueError
      | Some t \<Rightarrow>
          let (neg, body) = split_sign t;
              w = map lower_char body
          in if w = ''inf'' \<or> w = ''infinity'' then Inr (if neg then NInf else PInf)
             else if w = ''nan'' then Inr NaN
             else
               let ip = takeWhile is_digit body;
                   r1 = dropWhile is_digit body;
                   (fp, r2) = (case r1 of
                                 [] \<Rightarrow> ([], [])
                               | c # r \<Rightarrow>
                                   if c = CHR ''.''
                                   then (takeWhile is_digit r, dropWhile is_digit r)
                                   else ([], r1))
               in if ip = [] \<and> fp = [] then Inl ValueError
                  else case parse_exponent r2 of
                         None \<Rightarrow> Inl ValueError
                       | Some e \<Rightarrow>
                           Inr (dbl_round ((if neg then - 1 else 1)
                                  * of_int (digits_val (ip @ fp))
                                  * pow10 (e - int (length fp)))))"

section \<open>Data model\<close>

text \<open>
  A transaction is a dictionary with the eight keys of the input format and, once it has
  been validated, the key \<^verbatim>\<open>Amount\<close>. A field is \<open>None\<close> when the key is absent.
\<close>

record transaction =
  TransactionID :: "string option"
  Date :: "string option"
  ProductID :: "string option"
  ProductName :: "string option"
  Quantity :: "int option"
  UnitPrice :: "pyfloat option"
  CustomerID :: "string option"
  Region :: "string option"
  Amount :: "pyfloat option"

section \<open>Record parser: \<^verbatim>\<open>parse_transactions\<close>\<close>

text \<open>
  The body of the loop over the raw lines: \<open>None\<close> when the line is skipped (wrong
  number of fields, or a numeric field that does not convert).
\<close>

definition parse_line :: "nat \<Rightarrow> string \<Rightarrow> transaction option" where
  "parse_line maxd line =
     (let fields = py_split (CHR ''|'') line
      in if length fields \<noteq> 8 then None
         else
           let transaction_id = py_strip (fields ! 0);
               date = py_strip (fields ! 1);
               product_id = py_strip (fields ! 2);
               product_name = py_strip (fields ! 3);
               quantity_str = py_strip (fields ! 4);
               unit_price_str = py_strip (fields ! 5);
               customer_id = py_strip (fields ! 6);
               region = py_strip (fields ! 7);
               product_name_clean = py_replace (CHR '','') '' '' product_name
           in case py_int maxd (py_replace (CHR '','') [] quantity_str) of
                Inl _ \<Rightarrow> None
              | Inr quantity \<Rightarrow>
                  (case py_float (py_replace (CHR '','') [] unit_price_str) of
                     Inl _ \<Rightarrow> None
                   | Inr unit_price \<Rightarrow>
                       Some \<lparr>TransactionID = Some transaction_id,
                             Date = Some date,
                             ProductID = Some product_id,
                             ProductName = Some product_name_clean,
                             Quantity = Some quantity,
                             UnitPrice = Some unit_price,
                             CustomerID = Some customer_id,
                             Region = Some region,
                             Amount = None\<rparr>))"

text \<open>The loop, with its two accumulators \<open>(transactions, skipped_count)\<close>.\<close>

fun parse_loop :: "nat \<Rightarrow> string list \<Rightarrow> transaction list \<times> nat \<Rightarrow> transaction list \<times> nat" where
  "parse_loop maxd [] st = st"
| "parse_loop maxd (line # rest) (transactions, skipped_count) =
     (case parse_line maxd line of
        None \<Rightarrow> parse_loop maxd rest (transactions, skipped_count + 1)
      | Some t \<Rightarrow> parse_loop maxd rest (transactions @ [t], skipped_count))"

definition parse_transactions :: "nat \<Rightarrow> string list \<Rightarrow> transaction list" where
  "parse_transactions maxd raw_lines = fst (parse_loop maxd raw_lines ([], 0))"

section \<open>Validator and filter: \<^verbatim>\<open>validate_and_filter\<close>\<close>

text \<open>
  The function receives a list of dictionary objects and writes the key \<^verbatim>\<open>Amount\<close> into
  them, so objects live in a store: a list of transactions is a list of addresses, and
  the store maps every address to the dictionary stored there.
\<close>

type_synonym addr = nat
type_synonym store = "addr \<Rightarrow> transaction"

definition required_fields :: "string list" where
  "required_fields =
     [''TransactionID'', ''Date'', ''ProductID'', ''ProductName'',
      ''Quantity'', ''UnitPrice'', ''CustomerID'', ''Region'']"

text \<open>
  \<^verbatim>\<open>str(n)\<close> of an integer. CPython refuses the conversion with \<^verbatim>\<open>ValueError\<close> when the
  text would be longer than 640 characters and the number has more decimal digits than
  the interpreter's limit \<open>maxd\<close> (\<^verbatim>\<open>sys.get_int_max_str_digits()\<close>, 4300 unless changed, 0
  for no limit); it is the limit that \<^verbatim>\<open>int(text)\<close> applies in the other direction.
\<close>

definition dec_digits :: "int \<Rightarrow> nat" where
  "dec_digits n = (if n = 0 then 1 else floorlog 10 (nat \<bar>n\<bar>))"

definition int_str_raises :: "nat \<Rightarrow> int \<Rightarrow> bool" where
  "int_str_raises maxd n \<longleftrightarrow>
     640 < dec_digits n + (if n < 0 then 1 else 0) \<and> 0 < maxd \<and> maxd < dec_digits n"

text \<open>
  \<^verbatim>\<open>field not in trans or not str(trans[field]).strip()\<close>. The text of an integer or of
  a float is never blank, so a numeric field is missing only when its key is absent;
  the text of a float always exists, the text of an integer may be refused.
\<close>

definition blank :: "string option \<Rightarrow> bool" where
  "blank v = (case v of None \<Rightarrow> True | Some s \<Rightarrow> py_strip s = [])"

definition field_missing :: "nat \<Rightarrow> transaction \<Rightarrow> string \<Rightarrow> pyerr + bool" where
  "field_missing maxd t field =
     (if field = ''TransactionID'' then Inr (blank (TransactionID t))
      else if field = ''Date'' then Inr (blank (Date t))
      else if field = ''ProductID'' then Inr (blank (ProductID t))
      else if field = ''ProductName'' then Inr (blank (ProductName t))
      else if field = ''Quantity'' then
        (case Quantity t of
           None \<Rightarrow> Inr True
         | Some q \<Rightarrow> if int_str_raises maxd q then Inl ValueError else Inr False)
      else if field = ''UnitPrice'' then Inr (UnitPrice t = None)
      else if field = ''CustomerID'' then Inr (blank (CustomerID t))
      else if field = ''Region'' then Inr (blank (Region t))
      else Inr True)"

datatype reason =
    Missing string
  | Invalid_Quantity
  | Invalid_UnitPrice
  | Invalid_TransactionID
  | Invalid_ProductID
  | Invalid_CustomerID

text \<open>\<^verbatim>\<open>str(trans.get(key, ''))\<close> for a string field.\<close>

definition get_str :: "string option \<Rightarrow> string" where
  "get_str v = (case v of None \<Rightarrow> [] | Some s \<Rightarrow> s)"

text \<open>
  One pass of the validation loop's body over a transaction: the flag \<open>is_valid\<close> and
  the list \<open>reasons\<close>, updated by rule 1 for each required field and then by rules 2 to 6.
  An exception in rule 1 ends the pass. The text of rule 2's reason converts the same
  integer that rule 1 has already converted, so it raises nothing new.
\<close>

definition rule_step :: "bool \<Rightarrow> reason \<Rightarrow> bool \<times> reason list \<Rightarrow> bool \<times> reason list" where
  "rule_step failed r st = (if failed then (False, snd st @ [r]) else st)"

fun missing_loop ::
  "nat \<Rightarrow> transaction \<Rightarrow> string list \<Rightarrow> bool \<times> reason list \<Rightarrow> pyerr + bool \<times> reason list" where
  "missing_loop maxd t [] st = Inr st"
| "missing_loop maxd t (field # rest) st =
     (case field_missing maxd t field of
        Inl e \<Rightarrow> Inl e
      | Inr failed \<Rightarrow> missing_loop maxd t rest (rule_step failed (Missing field) st))"

definition check_transaction :: "nat \<Rightarrow> transaction \<Rightarrow> pyerr + bool \<times> reason list" where
  "check_transaction maxd t =
     (case missing_loop maxd t required_fields (True, []) of
        Inl e \<Rightarrow> Inl e
      | Inr st1 \<Rightarrow>
          (let st2 = rule_step (case Quantity t of None \<Rightarrow> True | Some q \<Rightarrow> q \<le> 0)
                       Invalid_Quantity st1;
               st3 = rule_step (case UnitPrice t of None \<Rightarrow> True | Some u \<Rightarrow> fl_le u (Fin 0))
                       Invalid_UnitPrice st2;
               st4 = rule_step (\<not> startswith (get_str (TransactionID t)) (CHR ''T''))
                       Invalid_TransactionID st3;
               st5 = rule_step (\<not> startswith (get_str (ProductID t)) (CHR ''P''))
                       Invalid_ProductID st4;
               st6 = rule_step (\<not> startswith (get_str (CustomerID t)) (CHR ''C''))
                       Invalid_CustomerID st5
           in Inr st6))"

text \<open>
  The value of the flag \<open>is_valid\<close> at the end of the pass: the verdict of the rules on a
  transaction, read from the pass with no limit on the digits, which never raises.
\<close>

definition is_valid :: "transaction \<Rightarrow> bool" where
  "is_valid t = (case check_transaction 0 t of Inl e \<Rightarrow> False | Inr st \<Rightarrow> fst st)"

text \<open>Step 1, the validation loop: \<open>(valid_transactions, invalid_count)\<close>.\<close>

fun validation_loop ::
  "nat \<Rightarrow> store \<Rightarrow> addr list \<Rightarrow> addr list \<times> nat \<Rightarrow> pyerr + addr list \<times> nat" where
  "validation_loop maxd h [] st = Inr st"
| "validation_loop maxd h (a # rest) (valid_transactions, invalid_count) =
     (case check_transaction maxd (h a) of
        Inl e \<Rightarrow> Inl e
      | Inr (ok, reasons) \<Rightarrow>
          if ok then validation_loop maxd h rest (valid_transactions @ [a], invalid_count)
          else validation_loop maxd h rest (valid_transactions, invalid_count + 1))"

text \<open>\<^verbatim>\<open>trans['Quantity'] * trans['UnitPrice']\<close>; a subscript of an absent key raises.\<close>

definition trans_amount :: "transaction \<Rightarrow> pyerr + pyfloat" where
  "trans_amount t =
     (case Quantity t of
        None \<Rightarrow> Inl KeyError
      | Some q \<Rightarrow>
          (case UnitPrice t of
             None \<Rightarrow> Inl KeyError
           | Some u \<Rightarrow> int_mul_float q u))"

text \<open>The loop that stores \<^verbatim>\<open>Amount\<close> into every valid transaction, in place.\<close>

fun amount_loop :: "store \<Rightarrow> addr list \<Rightarrow> pyerr + store" where
  "amount_loop h [] = Inr h"
| "amount_loop h (a # rest) =
     (case trans_amount (h a) of
        Inl e \<Rightarrow> Inl e
      | Inr v \<Rightarrow> amount_loop (h(a := (h a)\<lparr>Amount := Some v\<rparr>)) rest)"

text \<open>
  A list comprehension \<^verbatim>\<open>[t for t in xs if cond(t)]\<close> whose condition may raise: the
  first error ends it.
\<close>

fun py_filter :: "('a \<Rightarrow> pyerr + bool) \<Rightarrow> 'a list \<Rightarrow> pyerr + 'a list" where
  "py_filter c [] = Inr []"
| "py_filter c (x # xs) =
     (case c x of
        Inl e \<Rightarrow> Inl e
      | Inr b \<Rightarrow>
          (case py_filter c xs of
             Inl e \<Rightarrow> Inl e
           | Inr ys \<Rightarrow> Inr (if b then x # ys else ys)))"

text \<open>\<^verbatim>\<open>t['Region'] == region\<close>, \<^verbatim>\<open>t['Amount'] >= min_amount\<close>, \<^verbatim>\<open>t['Amount'] <= max_amount\<close>.\<close>

definition region_is :: "string \<Rightarrow> transaction \<Rightarrow> pyerr + bool" where
  "region_is region t = (case Region t of None \<Rightarrow> Inl KeyError | Some r \<Rightarrow> Inr (r = region))"

definition amount_ge :: "pyfloat \<Rightarrow> transaction \<Rightarrow> pyerr + bool" where
  "amount_ge min_amount t =
     (case Amount t of None \<Rightarrow> Inl KeyError | Some v \<Rightarrow> Inr (fl_ge v min_amount))"

definition amount_le :: "pyfloat \<Rightarrow> transaction \<Rightarrow> pyerr + bool" where
  "amount_le max_amount t =
     (case Amount t of None \<Rightarrow> Inl KeyError | Some v \<Rightarrow> Inr (fl_le v max_amount))"

record filter_summary =
  total_input :: nat
  invalid :: nat
  filtered_by_region :: nat
  filtered_by_amount :: nat
  final_count :: nat

text \<open>Step 2, the region filter: the surviving list and \<open>filtered_by_region\<close>.\<close>

definition region_filter :: "store \<Rightarrow> string option \<Rightarrow> addr list \<Rightarrow> pyerr + addr list \<times> nat" where
  "region_filter h region filtered_transactions =
     (case region of
        None \<Rightarrow> Inr (filtered_transactions, 0)
      | Some r \<Rightarrow>
          if r = [] then Inr (filtered_transactions, 0)
          else
            let before_count = length filtered_transactions
            in case py_filter (\<lambda>a. region_is r (h a)) filtered_transactions of
                 Inl e \<Rightarrow> Inl e
               | Inr kept \<Rightarrow> Inr (kept, before_count - length kept))"

text \<open>Step 3, the amount filters: the surviving list and \<open>filtered_by_amount\<close>.\<close>

definition amount_filter ::
  "store \<Rightarrow> pyfloat option \<Rightarrow> pyfloat option \<Rightarrow> addr list \<Rightarrow> pyerr + addr list \<times> nat" where
  "amount_filter h min_amount max_amount filtered_transactions =
     (if min_amount \<noteq> None \<or> max_amount \<noteq> None then
        let before_count = length filtered_transactions
        in case (case min_amount of
                   None \<Rightarrow> Inr filtered_transactions
                 | Some m \<Rightarrow> py_filter (\<lambda>a. amount_ge m (h a)) filtered_transactions) of
             Inl e \<Rightarrow> Inl e
           | Inr after_min \<Rightarrow>
               (case (case max_amount of
                        None \<Rightarrow> Inr after_min
                      | Some m \<Rightarrow> py_filter (\<lambda>a. amount_le m (h a)) after_min) of
                  Inl e \<Rightarrow> Inl e
                | Inr after_max \<Rightarrow> Inr (after_max, before_count - length after_max))
      else Inr (filtered_transactions, 0))"

text \<open>
  The whole function, under the interpreter's digit limit \<open>maxd\<close>. It returns the store
  after the call together with the triple
  \<open>(filtered_transactions, invalid_count, filter_summary)\<close>, or the exception raised.
\<close>

definition validate_and_filter ::
  "nat \<Rightarrow> store \<Rightarrow> addr list \<Rightarrow> string option \<Rightarrow> pyfloat option \<Rightarrow> pyfloat option
     \<Rightarrow> pyerr + store \<times> addr list \<times> nat \<times> filter_summary" where
  "validate_and_filter maxd h transactions region min_amount max_amount =
     (let n_input = length transactions
      in case validation_loop maxd h transactions ([], 0) of
           Inl e \<Rightarrow> Inl e
         | Inr (valid_transactions, invalid_count) \<Rightarrow>
             (case amount_loop h valid_transactions of
                Inl e \<Rightarrow> Inl e
              | Inr h1 \<Rightarrow>
                  (case region_filter h1 region valid_transactions of
                     Inl e \<Rightarrow> Inl e
                   | Inr (by_region, n_region) \<Rightarrow>
                       (case amount_filter h1 min_amount max_amount by_region of
                          Inl e \<Rightarrow> Inl e
                        | Inr (filtered_transactions, n_amount) \<Rightarrow>
                            Inr (h1, filtered_transactions, invalid_count,
                                 \<lparr>total_input = n_input,
                                  invalid = invalid_count,
                                  filtered_by_region = n_region,
                                  filtered_by_amount = n_amount,
                                  final_count = length filtered_transactions\<rparr>)))))"

section \<open>Aggregator: \<^verbatim>\<open>utils/data_processor.py\<close>\<close>

text \<open>
  The aggregation functions only read their transactions, so they take the dictionaries
  themselves. \<open>sale\<close> is \<^verbatim>\<open>trans.get('Quantity', 0) * trans.get('UnitPrice', 0.0)\<close>.
\<close>

definition sale :: "transaction \<Rightarrow> pyerr + pyfloat" where
  "sale t =
     int_mul_float (case Quantity t of None \<Rightarrow> 0 | Some q \<Rightarrow> q)
                   (case UnitPrice t of None \<Rightarrow> Fin 0 | Some u \<Rightarrow> u)"

text \<open>\<^verbatim>\<open>trans.get(key, 'Unknown')\<close> for a string field.\<close>

definition get_or_unknown :: "string option \<Rightarrow> string" where
  "get_or_unknown v = (case v of None \<Rightarrow> ''Unknown'' | Some s \<Rightarrow> s)"

fun total_loop :: "transaction list \<Rightarrow> pyfloat \<Rightarrow> pyerr + pyfloat" where
  "total_loop [] acc = Inr acc"
| "total_loop (t # ts) acc =
     (case sale t of
        Inl e \<Rightarrow> Inl e
      | Inr s \<Rightarrow> total_loop ts (fl_add acc s))"

definition calculate_total_revenue :: "transaction list \<Rightarrow> pyerr + pyfloat" where
  "calculate_total_revenue transactions =
     (if transactions = [] then Inr (Fin 0)
      else case total_loop transactions (Fin 0) of
             Inl e \<Rightarrow> Inl e
           | Inr acc \<Rightarrow> Inr (py_round2 acc))"

text \<open>
  A \<^verbatim>\<open>defaultdict\<close> is a list of key-value pairs in insertion order, one pair per key.
  \<open>dict_upd k dflt f d\<close> is \<^verbatim>\<open>d[k] = f(d[k])\<close> where a missing key starts from \<open>dflt\<close>.
\<close>

fun dict_upd :: "'k \<Rightarrow> 'v \<Rightarrow> ('v \<Rightarrow> 'v) \<Rightarrow> ('k \<times> 'v) list \<Rightarrow> ('k \<times> 'v) list" where
  "dict_upd k dflt f [] = [(k, f dflt)]"
| "dict_upd k dflt f ((k', v) # d) =
     (if k' = k then (k', f v) # d else (k', v) # dict_upd k dflt f d)"

text \<open>
  \<^verbatim>\<open>sorted(xs, key=key, reverse=True)\<close> for keys that \<^verbatim>\<open><\<close> orders totally (integers, or
  floats none of which is NaN): a stable sort into descending order, written as an
  insertion sort that only uses the key's \<^verbatim>\<open><\<close>.
\<close>

fun insert_desc :: "('k \<Rightarrow> 'k \<Rightarrow> bool) \<Rightarrow> ('a \<Rightarrow> 'k) \<Rightarrow> 'a \<Rightarrow> 'a list \<Rightarrow> 'a list" where
  "insert_desc lt key x [] = [x]"
| "insert_desc lt key x (y # ys) =
     (if lt (key x) (key y) then y # insert_desc lt key x ys else x # y # ys)"

definition sort_desc :: "('k \<Rightarrow> 'k \<Rightarrow> bool) \<Rightarrow> ('a \<Rightarrow> 'k) \<Rightarrow> 'a list \<Rightarrow> 'a list" where
  "sort_desc lt key xs = foldr (insert_desc lt key) xs []"

text \<open>
  \<^verbatim>\<open>sorted(xs, key=key, reverse=True)\<close> for float keys. When a key is NaN, \<^verbatim>\<open><\<close> is not an
  order on the keys, and the list Python returns depends on which pairs its sorting
  algorithm compares, which differs between versions of the interpreter; it is always a
  rearrangement of \<open>xs\<close>. That choice of the interpreter is the parameter \<open>nan_rank\<close>: for
  the list \<open>xs\<close> it gives every position of \<open>xs\<close> a rank, and the elements are returned
  by ascending rank. It is consulted only when a key is NaN.
\<close>

definition sort_desc_float ::
  "('a list \<Rightarrow> nat \<Rightarrow> nat) \<Rightarrow> ('a \<Rightarrow> pyfloat) \<Rightarrow> 'a list \<Rightarrow> 'a list" where
  "sort_desc_float nan_rank key xs =
     (if list_ex (\<lambda>x. key x = NaN) xs
      then map snd (sort_key (\<lambda>p. nan_rank xs (fst p)) (enumerate 0 xs))
      else sort_desc fl_lt key xs)"

text \<open>A loop or comprehension whose body may raise, collecting the results.\<close>

fun map_err :: "('a \<Rightarrow> pyerr + 'b) \<Rightarrow> 'a list \<Rightarrow> pyerr + 'b list" where
  "map_err f [] = Inr []"
| "map_err f (x # xs) =
     (case f x of
        Inl e \<Rightarrow> Inl e
      | Inr y \<Rightarrow>
          (case map_err f xs of
             Inl e \<Rightarrow> Inl e
           | Inr ys \<Rightarrow> Inr (y # ys)))"

subsection \<open>\<^verbatim>\<open>region_wise_sales\<close>\<close>

record region_stats =
  total_sales :: pyfloat
  transaction_count :: nat
  percentage :: pyfloat

text \<open>The accumulator of a region is the pair \<open>(total_sales, transaction_count)\<close>.\<close>

fun region_loop ::
  "transaction list \<Rightarrow> (string \<times> pyfloat \<times> nat) list \<Rightarrow> pyerr + (string \<times> pyfloat \<times> nat) list" where
  "region_loop [] region_data = Inr region_data"
| "region_loop (t # ts) region_data =
     (case sale t of
        Inl e \<Rightarrow> Inl e
      | Inr sales \<Rightarrow>
          region_loop ts
            (dict_upd (get_or_unknown (Region t)) (Fin 0, 0)
               (\<lambda>(s, c). (fl_add s sales, c + 1)) region_data))"

definition region_row :: "pyfloat \<Rightarrow> string \<times> pyfloat \<times> nat \<Rightarrow> pyerr + string \<times> region_stats" where
  "region_row total_revenue item =
     (case item of (region, sales_sum, cnt) \<Rightarrow>
        (case (if fl_gt total_revenue (Fin 0)
               then (case fl_div sales_sum total_revenue of
                       Inl e \<Rightarrow> Inl e
                     | Inr q \<Rightarrow> Inr (fl_mul q (Fin 100)))
               else Inr (Fin 0)) of
           Inl e \<Rightarrow> Inl e
         | Inr pct \<Rightarrow>
             Inr (region, \<lparr>total_sales = py_round2 sales_sum,
                           transaction_count = cnt,
                           percentage = py_round2 pct\<rparr>)))"

definition region_wise_sales ::
  "((string \<times> region_stats) list \<Rightarrow> nat \<Rightarrow> nat) \<Rightarrow> transaction list
     \<Rightarrow> pyerr + (string \<times> region_stats) list" where
  "region_wise_sales nan_rank transactions =
     (if transactions = [] then Inr []
      else case calculate_total_revenue transactions of
             Inl e \<Rightarrow> Inl e
           | Inr total_revenue \<Rightarrow>
               (case region_loop transactions [] of
                  Inl e \<Rightarrow> Inl e
                | Inr region_data \<Rightarrow>
                    (case map_err (region_row total_revenue) region_data of
                       Inl e \<Rightarrow> Inl e
                     | Inr result \<Rightarrow>
                         Inr (sort_desc_float nan_rank (\<lambda>x. total_sales (snd x)) result))))"

subsection \<open>\<^verbatim>\<open>top_selling_products\<close>\<close>

text \<open>The accumulator of a product is the pair \<open>(quantity, revenue)\<close>.\<close>

fun product_loop ::
  "transaction list \<Rightarrow> (string \<times> int \<times> pyfloat) list \<Rightarrow> pyerr + (string \<times> int \<times> pyfloat) list" where
  "product_loop [] product_data = Inr product_data"
| "product_loop (t # ts) product_data =
     (case sale t of
        Inl e \<Rightarrow> Inl e
      | Inr revenue \<Rightarrow>
          product_loop ts
            (dict_upd (get_or_unknown (ProductName t)) (0, Fin 0)
               (\<lambda>(q, r). (q + (case Quantity t of None \<Rightarrow> 0 | Some n \<Rightarrow> n), fl_add r revenue))
               product_data))"

text \<open>The slice \<^verbatim>\<open>xs[:n]\<close>; a negative \<open>n\<close> counts from the end.\<close>

definition py_slice_to :: "int \<Rightarrow> 'a list \<Rightarrow> 'a list" where
  "py_slice_to n xs =
     (if 0 \<le> n then take (nat n) xs else take (nat (int (length xs) + n)) xs)"

definition top_selling_products ::
  "transaction list \<Rightarrow> int \<Rightarrow> pyerr + (string \<times> int \<times> pyfloat) list" where
  "top_selling_products transactions n =
     (if transactions = [] then Inr []
      else case product_loop transactions [] of
             Inl e \<Rightarrow> Inl e
           | Inr product_data \<Rightarrow>
               let product_list = map (\<lambda>(product, q, r). (product, q, py_round2 r)) product_data
               in Inr (py_slice_to n (sort_desc (<) (\<lambda>x. fst (snd x)) product_list)))"

subsection \<open>\<^verbatim>\<open>daily_sales_trend\<close> and \<^verbatim>\<open>find_peak_sales_day\<close>\<close>

record daily_stats =
  revenue :: pyfloat
  day_transaction_count :: nat
  unique_customers :: nat

text \<open>
  The accumulator of a date is \<open>(revenue, transaction_count, customers)\<close>; the set of
  customers is a list without repetition.
\<close>

fun daily_loop ::
  "transaction list \<Rightarrow> (string \<times> pyfloat \<times> nat \<times> string list) list
     \<Rightarrow> pyerr + (string \<times> pyfloat \<times> nat \<times> string list) list" where
  "daily_loop [] daily_data = Inr daily_data"
| "daily_loop (t # ts) daily_data =
     (case sale t of
        Inl e \<Rightarrow> Inl e
      | Inr sales \<Rightarrow>
          daily_loop ts
            (dict_upd (get_or_unknown (Date t)) (Fin 0, 0, [])
               (\<lambda>(r, c, cs). (fl_add r sales, c + 1, List.insert (get_or_unknown (CustomerID t)) cs))
               daily_data))"

text \<open>
  \<^verbatim>\<open>dict(sorted(result.items()))\<close>: the keys of a dictionary are distinct, so the pairs are
  ordered by their date strings alone, ascending by code point.
\<close>

definition daily_sales_trend :: "transaction list \<Rightarrow> pyerr + (string \<times> daily_stats) list" where
  "daily_sales_trend transactions =
     (if transactions = [] then Inr []
      else case daily_loop transactions [] of
             Inl e \<Rightarrow> Inl e
           | Inr daily_data \<Rightarrow>
               let result = map (\<lambda>(date, r, c, cs).
                                   (date, \<lparr>revenue = py_round2 r,
                                           day_transaction_count = c,
                                           unique_customers = length cs\<rparr>)) daily_data
               in Inr (sort_key fst result))"

text \<open>
  \<^verbatim>\<open>max(items, key=key)\<close> on a non-empty sequence: a later item replaces the current
  maximum only when its key is greater, so the first maximal item is kept.
\<close>

definition py_max_by :: "('k \<Rightarrow> 'k \<Rightarrow> bool) \<Rightarrow> ('a \<Rightarrow> 'k) \<Rightarrow> 'a \<Rightarrow> 'a list \<Rightarrow> 'a" where
  "py_max_by gt key x xs = foldl (\<lambda>best y. if gt (key y) (key best) then y else best) x xs"

definition find_peak_sales_day :: "transaction list \<Rightarrow> pyerr + string option \<times> pyfloat \<times> nat" where
  "find_peak_sales_day transactions =
     (if transactions = [] then Inr (None, Fin 0, 0)
      else case daily_sales_trend transactions of
             Inl e \<Rightarrow> Inl e
           | Inr daily_trend \<Rightarrow>
               (case daily_trend of
                  [] \<Rightarrow> Inr (None, Fin 0, 0)
                | x # xs \<Rightarrow>
                    let peak_date = py_max_by fl_gt (\<lambda>x. revenue (snd x)) x xs
                    in Inr (Some (fst peak_date), revenue (snd peak_date),
                            day_transaction_count (snd peak_date))))"

section \<open>Enricher: \<^verbatim>\<open>enrich_sales_data\<close>\<close>

text \<open>
  A catalog entry as \<^verbatim>\<open>create_product_mapping\<close> stores it; a field is \<open>None\<close> when the
  catalog gave none. The product mapping is a dictionary from integer ids to entries.
\<close>

record product_info =
  title :: "string option"
  category :: "string option"
  brand :: "string option"
  rating :: "pyfloat option"

type_synonym product_mapping = "int \<Rightarrow> product_info option"

text \<open>
  An enriched transaction has the keys of the transaction it copies and the four API
  keys; \<open>None\<close> in one of the first three API fields is Python's \<^verbatim>\<open>None\<close>.
\<close>

record enriched_transaction = transaction +
  API_Category :: "string option"
  API_Brand :: "string option"
  API_Rating :: "pyfloat option"
  API_Match :: bool

definition with_api ::
  "transaction \<Rightarrow> string option \<Rightarrow> string option \<Rightarrow> pyfloat option \<Rightarrow> bool \<Rightarrow> enriched_transaction" where
  "with_api t c b r m =
     \<lparr>TransactionID = TransactionID t, Date = Date t, ProductID = ProductID t,
      ProductName = ProductName t, Quantity = Quantity t, UnitPrice = UnitPrice t,
      CustomerID = CustomerID t, Region = Region t, Amount = Amount t,
      API_Category = c, API_Brand = b, API_Rating = r, API_Match = m\<rparr>"

text \<open>
  \<^verbatim>\<open>re.search(r'\d+', s)\<close>: the match is tried at each position from the left; at a
  digit it succeeds and takes all the digits that follow.
\<close>

fun re_search_digits :: "string \<Rightarrow> string option" where
  "re_search_digits [] = None"
| "re_search_digits (c # cs) =
     (if is_digit c then Some (c # takeWhile is_digit cs) else re_search_digits cs)"

text \<open>
  The body of the loop for one transaction: the enriched copy, and whether it counts as
  a match. An exception inside the \<^verbatim>\<open>try\<close> block gives the unmatched record.
\<close>

definition enrich_transaction :: "nat \<Rightarrow> product_mapping \<Rightarrow> transaction \<Rightarrow> enriched_transaction \<times> bool" where
  "enrich_transaction maxd product_mapping t =
     (let product_id_str = get_str (ProductID t)
      in case re_search_digits product_id_str of
           Some numeric_match \<Rightarrow>
             (case py_int maxd numeric_match of
                Inr numeric_id \<Rightarrow>
                  (case product_mapping numeric_id of
                     Some info \<Rightarrow> (with_api t (category info) (brand info) (rating info) True, True)
                   | None \<Rightarrow> (with_api t None None None False, False))
              | Inl e \<Rightarrow> (with_api t None None None False, False))
         | None \<Rightarrow> (with_api t None None None False, False))"

text \<open>The loop with its accumulators \<open>(enriched_transactions, match_count, no_match_count)\<close>.\<close>

fun enrich_loop ::
  "nat \<Rightarrow> product_mapping \<Rightarrow> transaction list \<Rightarrow> enriched_transaction list \<times> nat \<times> nat
     \<Rightarrow> enriched_transaction list \<times> nat \<times> nat" where
  "enrich_loop maxd m [] st = st"
| "enrich_loop maxd m (t # ts) (enriched_transactions, match_count, no_match_count) =
     (case enrich_transaction maxd m t of
        (e, matched) \<Rightarrow>
          enrich_loop maxd m ts
            (enriched_transactions @ [e],
             if matched then match_count + 1 else match_count,
             if matched then no_match_count else no_match_count + 1))"

definition enrich_sales_data :: "nat \<Rightarrow> transaction list \<Rightarrow> product_mapping \<Rightarrow> enriched_transaction list" where
  "enrich_sales_data maxd transactions product_mapping =
     (if transactions = [] then []
      else fst (enrich_loop maxd product_mapping transactions ([], 0, 0)))"

section \<open>Definitions that follow the specification\<close>

text \<open>
  The definitions of this section are written from the words of the specification, to be
  compared with the functions above, and the example data used below.
\<close>

subsection \<open>Enricher\<close>

text \<open>The first maximal run of decimal digits found anywhere in a string, if there is one.\<close>

definition first_digit_run :: "string \<Rightarrow> string option" where
  "first_digit_run s =
     (let run = takeWhile is_digit (dropWhile (\<lambda>c. \<not> is_digit c) s)
      in if run = [] then None else Some run)"

text \<open>
  The catalog entry of a transaction: the digit run of its product id exists, parses to
  an integer, and that integer is a key of the mapping.
\<close>

definition catalog_entry_for :: "nat \<Rightarrow> product_mapping \<Rightarrow> transaction \<Rightarrow> product_info option" where
  "catalog_entry_for maxd m t =
     (case first_digit_run (get_str (ProductID t)) of
        None \<Rightarrow> None
      | Some run \<Rightarrow> (case py_int maxd run of Inl _ \<Rightarrow> None | Inr k \<Rightarrow> m k))"

subsection \<open>Record parser\<close>

text \<open>
  What one raw line contributes to the parsed batch, in the words of the specification:
  nothing when splitting on \<^verbatim>\<open>|\<close> does not give exactly 8 fields; otherwise every field
  is trimmed, all commas are removed from the quantity and unit price texts before they
  are converted to an integer and a float, and the commas of the product name become
  spaces. A line whose numeric text does not convert contributes nothing either.
\<close>

definition spec_parse_line :: "nat \<Rightarrow> string \<Rightarrow> transaction list" where
  "spec_parse_line maxd line =
     (let fs = map py_strip (py_split (CHR ''|'') line)
      in if length fs \<noteq> 8 then []
         else case (py_int maxd (filter (\<lambda>c. c \<noteq> CHR '','') (fs ! 4)),
                    py_float (filter (\<lambda>c. c \<noteq> CHR '','') (fs ! 5))) of
                (Inr q, Inr u) \<Rightarrow>
                  [\<lparr>TransactionID = Some (fs ! 0),
                    Date = Some (fs ! 1),
                    ProductID = Some (fs ! 2),
                    ProductName = Some (map (\<lambda>c. if c = CHR '','' then CHR '' '' else c) (fs ! 3)),
                    Quantity = Some q,
                    UnitPrice = Some u,
                    CustomerID = Some (fs ! 6),
                    Region = Some (fs ! 7),
                    Amount = None\<rparr>]
              | _ \<Rightarrow> [])"

subsection \<open>Validator and filter\<close>

text \<open>
  The six validation rules as the specification states them: a required field is present
  and, after string coercion, non-empty; quantity and unit price are greater than zero;
  the three identifiers start with their letter.
\<close>

definition present_nonempty :: "string option \<Rightarrow> bool" where
  "present_nonempty v = (case v of None \<Rightarrow> False | Some s \<Rightarrow> s \<noteq> [])"

definition six_rules_stated :: "transaction \<Rightarrow> bool" where
  "six_rules_stated t =
     ((present_nonempty (TransactionID t) \<and> present_nonempty (Date t)
        \<and> present_nonempty (ProductID t) \<and> present_nonempty (ProductName t)
        \<and> Quantity t \<noteq> None \<and> UnitPrice t \<noteq> None
        \<and> present_nonempty (CustomerID t) \<and> present_nonempty (Region t))
      \<and> (case Quantity t of None \<Rightarrow> False | Some q \<Rightarrow> 0 < q)
      \<and> (case UnitPrice t of None \<Rightarrow> False | Some u \<Rightarrow> fl_gt u (Fin 0))
      \<and> startswith (get_str (TransactionID t)) (CHR ''T'')
      \<and> startswith (get_str (ProductID t)) (CHR ''P'')
      \<and> startswith (get_str (CustomerID t)) (CHR ''C''))"

text \<open>
  The same rules with rule 1 read as the code checks it: a required field is present and
  not blank, that is, non-empty after string coercion and removal of the surrounding
  whitespace.
\<close>

definition six_rules :: "transaction \<Rightarrow> bool" where
  "six_rules t =
     ((\<not> blank (TransactionID t) \<and> \<not> blank (Date t) \<and> \<not> blank (ProductID t)
        \<and> \<not> blank (ProductName t) \<and> Quantity t \<noteq> None \<and> UnitPrice t \<noteq> None
        \<and> \<not> blank (CustomerID t) \<and> \<not> blank (Region t))
      \<and> (case Quantity t of None \<Rightarrow> False | Some q \<Rightarrow> 0 < q)
      \<and> (case UnitPrice t of None \<Rightarrow> False | Some u \<Rightarrow> fl_gt u (Fin 0))
      \<and> startswith (get_str (TransactionID t)) (CHR ''T'')
      \<and> startswith (get_str (ProductID t)) (CHR ''P'')
      \<and> startswith (get_str (CustomerID t)) (CHR ''C''))"

text \<open>The transactions of a list that pass the validation loop, in their order.\<close>

definition valid_refs :: "store \<Rightarrow> addr list \<Rightarrow> addr list" where
  "valid_refs h refs = filter (\<lambda>a. is_valid (h a)) refs"

text \<open>
  The product \<^verbatim>\<open>Quantity * UnitPrice\<close> of every transaction that passes validation can be
  computed: no quantity is too large to be converted to a float.
\<close>

definition amounts_ok :: "store \<Rightarrow> addr list \<Rightarrow> bool" where
  "amounts_ok h refs = list_all (\<lambda>a. \<not> isl (trans_amount (h a))) (valid_refs h refs)"

text \<open>
  The text of every quantity of the list can be produced: none has more digits than the
  interpreter's limit.
\<close>

definition quantity_text_ok :: "nat \<Rightarrow> transaction \<Rightarrow> bool" where
  "quantity_text_ok maxd t =
     (case Quantity t of None \<Rightarrow> True | Some q \<Rightarrow> \<not> int_str_raises maxd q)"

definition texts_ok :: "nat \<Rightarrow> store \<Rightarrow> addr list \<Rightarrow> bool" where
  "texts_ok maxd h refs = list_all (\<lambda>a. quantity_text_ok maxd (h a)) refs"

text \<open>A dictionary after it has gained the key \<^verbatim>\<open>Amount\<close>, and the store after the call.\<close>

definition with_amount :: "transaction \<Rightarrow> transaction" where
  "with_amount t = (case trans_amount t of Inr v \<Rightarrow> t\<lparr>Amount := Some v\<rparr> | Inl _ \<Rightarrow> t)"

definition store_after :: "store \<Rightarrow> addr list \<Rightarrow> store" where
  "store_after h valid = (\<lambda>a. if a \<in> set valid then with_amount (h a) else h a)"

text \<open>
  The three filter predicates of the specification. The region filter applies when a
  region is supplied and non-empty, and keeps the records whose region equals it; the
  amount filters apply when their bound is supplied, and compare the amount
  \<^verbatim>\<open>Quantity * UnitPrice\<close> of the record with the bound.
\<close>

definition keeps_region :: "string option \<Rightarrow> transaction \<Rightarrow> bool" where
  "keeps_region region t =
     (case region of None \<Rightarrow> True | Some r \<Rightarrow> if r = [] then True else Region t = Some r)"

definition keeps_min :: "pyfloat option \<Rightarrow> transaction \<Rightarrow> bool" where
  "keeps_min min_amount t =
     (case min_amount of
        None \<Rightarrow> True
      | Some m \<Rightarrow> (case trans_amount t of Inr v \<Rightarrow> fl_ge v m | Inl _ \<Rightarrow> False))"

definition keeps_max :: "pyfloat option \<Rightarrow> transaction \<Rightarrow> bool" where
  "keeps_max max_amount t =
     (case max_amount of
        None \<Rightarrow> True
      | Some m \<Rightarrow> (case trans_amount t of Inr v \<Rightarrow> fl_le v m | Inl _ \<Rightarrow> False))"

text \<open>The three filters in their fixed order: region, then minimum, then maximum.\<close>

definition kept :: "store \<Rightarrow> string option \<Rightarrow> pyfloat option \<Rightarrow> pyfloat option \<Rightarrow> addr list \<Rightarrow> addr list" where
  "kept h region min_amount max_amount valid =
     filter (\<lambda>a. keeps_max max_amount (h a))
       (filter (\<lambda>a. keeps_min min_amount (h a))
          (filter (\<lambda>a. keeps_region region (h a)) valid))"


text \<open>The admitted list and the count of invalid records of a call.\<close>

definition admitted_and_count ::
  "pyerr + store \<times> addr list \<times> nat \<times> filter_summary \<Rightarrow> pyerr + addr list \<times> nat" where
  "admitted_and_count r = map_sum id (\<lambda>x. (fst (snd x), fst (snd (snd x)))) r"

subsection \<open>Aggregator\<close>

text \<open>The distinct elements of a list in the order in which they are first seen.\<close>

fun first_seen :: "'a list \<Rightarrow> 'a list" where
  "first_seen [] = []"
| "first_seen (x # xs) = x # first_seen (filter (\<lambda>y. y \<noteq> x) xs)"

text \<open>
  The revenue \<^verbatim>\<open>quantity * unit_price\<close> of a transaction whose product can be computed,
  the quantity it counts for, and the full-precision running sum of the revenues of a
  list of transactions, added in their order starting from \<^verbatim>\<open>0.0\<close>.
\<close>

definition sale_value :: "transaction \<Rightarrow> pyfloat" where
  "sale_value t = (case sale t of Inr v \<Rightarrow> v | Inl _ \<Rightarrow> Fin 0)"

definition quantity_of :: "transaction \<Rightarrow> int" where
  "quantity_of t = (case Quantity t of None \<Rightarrow> 0 | Some n \<Rightarrow> n)"

definition full_sum :: "transaction list \<Rightarrow> pyfloat" where
  "full_sum ts = foldl fl_add (Fin 0) (map sale_value ts)"

text \<open>
  Grouping by a key: one accumulator per key, in first-seen order of the keys, each
  folded over the transactions of its key in their order.
\<close>

definition group_fold ::
  "('t \<Rightarrow> 'k) \<Rightarrow> 'v \<Rightarrow> ('t \<Rightarrow> 'v \<Rightarrow> 'v) \<Rightarrow> 't list \<Rightarrow> ('k \<times> 'v) list \<Rightarrow> ('k \<times> 'v) list" where
  "group_fold key dflt step ts d = foldl (\<lambda>d t. dict_upd (key t) dflt (step t) d) d ts"

definition grouped :: "('t \<Rightarrow> 'k) \<Rightarrow> 'v \<Rightarrow> ('t \<Rightarrow> 'v \<Rightarrow> 'v) \<Rightarrow> 't list \<Rightarrow> ('k \<times> 'v) list" where
  "grouped key dflt step ts =
     map (\<lambda>p. (p, foldl (\<lambda>v t. step t v) dflt (filter (\<lambda>t. key t = p) ts)))
       (first_seen (map key ts))"

text \<open>
  The product groups of the specification: grouped by product name, in first-seen order,
  each with its summed quantity and its summed revenue (rounded to two decimals as the
  function reports it).
\<close>

definition product_groups :: "transaction list \<Rightarrow> (string \<times> int \<times> pyfloat) list" where
  "product_groups ts =
     map (\<lambda>p. (p,
               sum_list (map quantity_of (filter (\<lambda>t. get_or_unknown (ProductName t) = p) ts)),
               py_round2 (full_sum (filter (\<lambda>t. get_or_unknown (ProductName t) = p) ts))))
       (first_seen (map (\<lambda>t. get_or_unknown (ProductName t)) ts))"

text \<open>
  The percentage of a region as the specification states it: the group's revenue divided
  by the total revenue, times 100, both sums in full precision, and 0 when the total
  revenue is not positive.
\<close>

definition stated_percentage :: "transaction list \<Rightarrow> string \<Rightarrow> pyfloat" where
  "stated_percentage ts r =
     (if fl_gt (full_sum ts) (Fin 0)
      then (case fl_div (full_sum (filter (\<lambda>t. get_or_unknown (Region t) = r) ts)) (full_sum ts) of
              Inr q \<Rightarrow> fl_mul q (Fin 100)
            | Inl _ \<Rightarrow> Fin 0)
      else Fin 0)"

subsection \<open>Example data\<close>

definition mk_transaction ::
  "string \<Rightarrow> string \<Rightarrow> string \<Rightarrow> string \<Rightarrow> int \<Rightarrow> pyfloat \<Rightarrow> string \<Rightarrow> string \<Rightarrow> transaction" where
  "mk_transaction tid d pid name q u cid r =
     \<lparr>TransactionID = Some tid, Date = Some d, ProductID = Some pid, ProductName = Some name,
      Quantity = Some q, UnitPrice = Some u, CustomerID = Some cid, Region = Some r,
      Amount = None\<rparr>"

definition example_catalog :: product_mapping where
  "example_catalog =
     Map.empty(5 \<mapsto> \<lparr>title = Some ''Tablet'', category = Some ''tablets'',
                       brand = Some ''Acme'', rating = Some (Fin (9 / 2))\<rparr>)"

text \<open>
  A store of four dictionaries: two valid sales in the North, one in the South, and a
  record whose transaction id does not start with \<^verbatim>\<open>T\<close>.
\<close>

definition example_store :: store where
  "example_store a =
     (if a = 0 then mk_transaction ''T001'' ''2024-12-02'' ''P1'' ''Mouse'' 2 (Fin 10) ''C001'' ''North''
      else if a = 1 then mk_transaction ''T002'' ''2024-12-01'' ''P5'' ''Laptop'' 1 (Fin 20) ''C002'' ''South''
      else if a = 2 then mk_transaction ''T003'' ''2024-12-03'' ''P7'' ''Mouse'' 1 (Fin 5) ''C001'' ''North''
      else mk_transaction ''X004'' ''2024-12-03'' ''P7'' ''Pad'' 3 (Fin 7) ''C003'' ''East'')"




text \<open>The example line of the specification.\<close>

definition example_line :: string where
  "example_line = ''T001|2024-12-01|P101|Laptop|2|45,000|C001|North''"

text \<open>The three valid sales of the example store, as a list of dictionaries.\<close>

definition example_sales :: "transaction list" where
  "example_sales = [example_store 0, example_store 1, example_store 2]"

text \<open>A single sale of one unit at the price \<open>0.25390625\<close>, a binary fraction.\<close>

definition small_sale :: "transaction list" where
  "small_sale =
     [mk_transaction ''T001'' ''2024-12-01'' ''P1'' ''Mouse'' 1 (Fin (65 / 256)) ''C001'' ''North'']"

section \<open>Enricher: cardinality and the catalog join\<close>

lemma re_search_digits_first_run: "re_search_digits s = first_digit_run s"
  by (induction s) (simp_all add: first_digit_run_def)

lemma enrich_loop_fst:
  "fst (enrich_loop maxd m ts (acc, a, b)) = acc @ map (\<lambda>t. fst (enrich_transaction maxd m t)) ts"
  by (induction ts arbitrary: acc a b) (simp_all split: prod.splits)

lemma enrich_sales_data_map:
  "enrich_sales_data maxd ts m = map (\<lambda>t. fst (enrich_transaction maxd m t)) ts"
  by (simp add: enrich_sales_data_def enrich_loop_fst)

lemma enrich_transaction_entry:
  "fst (enrich_transaction maxd m t) =
     (case catalog_entry_for maxd m t of
        Some info \<Rightarrow> with_api t (category info) (brand info) (rating info) True
      | None \<Rightarrow> with_api t None None None False)"
  by (simp add: enrich_transaction_def catalog_entry_for_def re_search_digits_first_run
           split: option.splits sum.splits)

text \<open>
  C2. For every list of transactions and every product mapping, the list returned by
  \<^verbatim>\<open>enrich_sales_data\<close> has the length of the input list: no record is dropped or
  duplicated, and no failure on a record reduces the count.
\<close>

theorem enrich_preserves_length:
  "length (enrich_sales_data maxd transactions product_mapping) = length transactions"
  by (simp add: enrich_sales_data_map)

theorem enrich_preserves_length_witness:
  "length (enrich_sales_data 4300
             [mk_transaction ''T001'' ''2024-12-01'' ''P5'' ''Tablet'' 2 (Fin 300) ''C001'' ''North'',
              mk_transaction ''T002'' ''2024-12-01'' ''P999'' ''Phone'' 1 (Fin 10) ''C002'' ''South'']
             example_catalog) = 2"
  using enrich_preserves_length
          [of 4300 "[mk_transaction ''T001'' ''2024-12-01'' ''P5'' ''Tablet'' 2 (Fin 300) ''C001'' ''North'',
                     mk_transaction ''T002'' ''2024-12-01'' ''P999'' ''Phone'' 1 (Fin 10) ''C002'' ''South'']"
              example_catalog]
  by simp

text \<open>
  C3. For every transaction of the input and every mapping: when the first maximal run of
  decimal digits of \<^verbatim>\<open>ProductID\<close> exists and parses to an integer that is a key of the
  mapping, the enriched record has \<^verbatim>\<open>API_Match\<close> true and its category, brand and rating
  are those of that entry; in every other case \<^verbatim>\<open>API_Match\<close> is false and the three
  fields are null.
\<close>

theorem enrich_api_fields:
  assumes "i < length transactions"
  shows "let e = enrich_sales_data maxd transactions product_mapping ! i
         in case catalog_entry_for maxd product_mapping (transactions ! i) of
              Some info \<Rightarrow>
                API_Match e \<and> API_Category e = category info \<and> API_Brand e = brand info
                  \<and> API_Rating e = rating info
            | None \<Rightarrow>
                \<not> API_Match e \<and> API_Category e = None \<and> API_Brand e = None
                  \<and> API_Rating e = None"
  using assms
  by (simp add: enrich_sales_data_map enrich_transaction_entry with_api_def split: option.splits)

theorem enrich_api_fields_witness:
  "(let e = enrich_sales_data 4300
              [mk_transaction ''T001'' ''2024-12-01'' ''P5'' ''Tablet'' 2 (Fin 300) ''C001'' ''North'',
               mk_transaction ''T002'' ''2024-12-01'' ''P999'' ''Phone'' 1 (Fin 10) ''C002'' ''South'']
              example_catalog ! 0
    in API_Match e \<and> API_Category e = Some ''tablets'' \<and> API_Brand e = Some ''Acme''
         \<and> API_Rating e = Some (Fin (9 / 2)))
   \<and> (let e = enrich_sales_data 4300
              [mk_transaction ''T001'' ''2024-12-01'' ''P5'' ''Tablet'' 2 (Fin 300) ''C001'' ''North'',
               mk_transaction ''T002'' ''2024-12-01'' ''P999'' ''Phone'' 1 (Fin 10) ''C002'' ''South'']
              example_catalog ! 1
    in \<not> API_Match e \<and> API_Category e = None \<and> API_Brand e = None \<and> API_Rating e = None)"
proof -
  let ?t0 = "mk_transaction ''T001'' ''2024-12-01'' ''P5'' ''Tablet'' 2 (Fin 300) ''C001'' ''North''"
  let ?t1 = "mk_transaction ''T002'' ''2024-12-01'' ''P999'' ''Phone'' 1 (Fin 10) ''C002'' ''South''"
  have e0: "catalog_entry_for 4300 example_catalog ?t0
              = Some \<lparr>title = Some ''Tablet'', category = Some ''tablets'',
                       brand = Some ''Acme'', rating = Some (Fin (9 / 2))\<rparr>"
    by code_simp
  have e1: "catalog_entry_for 4300 example_catalog ?t1 = None"
    by code_simp
  show ?thesis
    using enrich_api_fields [of 0 "[?t0, ?t1]" 4300 example_catalog]
          enrich_api_fields [of 1 "[?t0, ?t1]" 4300 example_catalog]
    by (simp add: e0 e1)
qed

section \<open>Validator and filter\<close>

lemma fst_rule_step: "fst (rule_step failed r st) = (fst st \<and> \<not> failed)"
  by (simp add: rule_step_def)

lemma check_transaction_raises:
  "\<not> quantity_text_ok maxd t \<Longrightarrow> check_transaction maxd t = Inl ValueError"
  unfolding check_transaction_def required_fields_def
  by (auto simp: field_missing_def quantity_text_ok_def split: option.splits)

lemma check_transaction_no_limit:
  "quantity_text_ok maxd t \<Longrightarrow> check_transaction maxd t = check_transaction 0 t"
  unfolding check_transaction_def required_fields_def
  by (auto simp: field_missing_def quantity_text_ok_def int_str_raises_def split: option.splits)

lemma check_transaction_returns: "\<exists>st. check_transaction 0 t = Inr st"
  unfolding check_transaction_def required_fields_def
  by (simp add: field_missing_def int_str_raises_def Let_def split: option.splits)

lemma check_transaction_verdict:
  "quantity_text_ok maxd t \<Longrightarrow> \<exists>reasons. check_transaction maxd t = Inr (is_valid t, reasons)"
  using check_transaction_returns [of t]
  by (auto simp: check_transaction_no_limit is_valid_def)

lemma is_valid_iff:
  "is_valid t \<longleftrightarrow>
     (\<not> blank (TransactionID t) \<and> \<not> blank (Date t) \<and> \<not> blank (ProductID t)
        \<and> \<not> blank (ProductName t) \<and> Quantity t \<noteq> None \<and> UnitPrice t \<noteq> None
        \<and> \<not> blank (CustomerID t) \<and> \<not> blank (Region t))
      \<and> (case Quantity t of None \<Rightarrow> False | Some q \<Rightarrow> \<not> q \<le> 0)
      \<and> (case UnitPrice t of None \<Rightarrow> False | Some u \<Rightarrow> \<not> fl_le u (Fin 0))
      \<and> startswith (get_str (TransactionID t)) (CHR ''T'')
      \<and> startswith (get_str (ProductID t)) (CHR ''P'')
      \<and> startswith (get_str (CustomerID t)) (CHR ''C'')"
  unfolding is_valid_def check_transaction_def required_fields_def
  by (auto simp: field_missing_def int_str_raises_def Let_def fst_rule_step
           split: option.splits)

lemma fl_gt_zero_iff: "u \<noteq> NaN \<Longrightarrow> fl_gt u (Fin 0) \<longleftrightarrow> \<not> fl_le u (Fin 0)"
  by (cases u) (auto simp: fl_gt_def)

lemma is_valid_six_rules:
  "UnitPrice t \<noteq> Some NaN \<Longrightarrow> is_valid t \<longleftrightarrow> six_rules t"
  by (auto simp: is_valid_iff six_rules_def fl_gt_zero_iff split: option.splits)

lemma six_rules_imp_valid: "six_rules t \<Longrightarrow> is_valid t"
  by (cases "UnitPrice t = Some NaN") (auto simp: is_valid_six_rules six_rules_def fl_gt_def)

lemma not_isl_iff: "\<not> isl x \<longleftrightarrow> (\<exists>v. x = Inr v)"
  by (cases x) auto

lemma validation_loop_eq:
  assumes "\<forall>a \<in> set refs. quantity_text_ok maxd (h a)"
  shows "validation_loop maxd h refs (acc, n) =
           Inr (acc @ filter (\<lambda>a. is_valid (h a)) refs,
                n + length (filter (\<lambda>a. \<not> is_valid (h a)) refs))"
  using assms
proof (induction refs arbitrary: acc n)
  case Nil
  show ?case by simp
next
  case (Cons a refs)
  from Cons.prems obtain reasons where c: "check_transaction maxd (h a) = Inr (is_valid (h a), reasons)"
    using check_transaction_verdict [of maxd "h a"] by auto
  from Cons.prems have rest: "\<forall>a \<in> set refs. quantity_text_ok maxd (h a)"
    by simp
  show ?case
    by (simp add: c Cons.IH [OF rest])
qed

lemma validation_loop_Inr_D:
  "validation_loop maxd h refs st = Inr r \<Longrightarrow> \<forall>a \<in> set refs. quantity_text_ok maxd (h a)"
proof (induction refs arbitrary: st)
  case Nil
  show ?case by simp
next
  case (Cons a refs)
  obtain acc n where st: "st = (acc, n)"
    by (cases st)
  have ok: "quantity_text_ok maxd (h a)"
  proof (rule ccontr)
    assume "\<not> quantity_text_ok maxd (h a)"
    then have "check_transaction maxd (h a) = Inl ValueError"
      by (rule check_transaction_raises)
    with Cons.prems show False
      by (simp add: st)
  qed
  then obtain reasons where c: "check_transaction maxd (h a) = Inr (is_valid (h a), reasons)"
    using check_transaction_verdict by blast
  from Cons.prems have "\<exists>st'. validation_loop maxd h refs st' = Inr r"
    by (auto simp: st c split: if_splits)
  with Cons.IH have "\<forall>a \<in> set refs. quantity_text_ok maxd (h a)"
    by blast
  with ok show ?case
    by simp
qed

lemma trans_amount_Amount_update [simp]: "trans_amount (t\<lparr>Amount := x\<rparr>) = trans_amount t"
  by (simp add: trans_amount_def split: option.splits)

lemma is_valid_Amount_update [simp]: "is_valid (t\<lparr>Amount := x\<rparr>) = is_valid t"
  by (simp add: is_valid_iff)

lemma trans_amount_with_amount [simp]: "trans_amount (with_amount t) = trans_amount t"
  by (simp add: with_amount_def split: sum.splits)

lemma is_valid_with_amount [simp]: "is_valid (with_amount t) = is_valid t"
  by (simp add: with_amount_def split: sum.splits)

lemma with_amount_idem [simp]: "with_amount (with_amount t) = with_amount t"
  by (simp add: with_amount_def split: sum.splits)

lemma Region_with_amount [simp]: "Region (with_amount t) = Region t"
  by (simp add: with_amount_def split: sum.splits)

lemma Amount_with_amount: "trans_amount t = Inr v \<Longrightarrow> Amount (with_amount t) = Some v"
  by (simp add: with_amount_def)

lemma amount_loop_Inr:
  "\<forall>a \<in> set as. \<exists>v. trans_amount (h a) = Inr v \<Longrightarrow> amount_loop h as = Inr (store_after h as)"
proof (induction as arbitrary: h)
  case Nil
  show ?case by (simp add: store_after_def)
next
  case (Cons a as)
  from Cons.prems obtain v where v: "trans_amount (h a) = Inr v" by auto
  let ?h = "h(a := (h a)\<lparr>Amount := Some v\<rparr>)"
  have "\<forall>b \<in> set as. \<exists>w. trans_amount (?h b) = Inr w"
    using Cons.prems by auto
  then have "amount_loop ?h as = Inr (store_after ?h as)"
    by (rule Cons.IH)
  moreover have "store_after ?h as = store_after h (a # as)"
    using v by (auto simp: store_after_def with_amount_def fun_eq_iff)
  ultimately show ?case using v by simp
qed

lemma amount_loop_Inr_D:
  "amount_loop h as = Inr h' \<Longrightarrow> \<forall>a \<in> set as. \<exists>v. trans_amount (h a) = Inr v"
proof (induction as arbitrary: h)
  case Nil
  show ?case by simp
next
  case (Cons a as)
  from Cons.prems obtain v where v: "trans_amount (h a) = Inr v"
    by (cases "trans_amount (h a)") auto
  let ?h = "h(a := (h a)\<lparr>Amount := Some v\<rparr>)"
  from Cons.prems v have "amount_loop ?h as = Inr h'" by simp
  then have "\<forall>b \<in> set as. \<exists>w. trans_amount (?h b) = Inr w" by (rule Cons.IH)
  then have "\<forall>b \<in> set as. \<exists>w. trans_amount (h b) = Inr w"
    by (auto split: if_splits)
  with v show ?case by simp
qed

lemma py_filter_Inr:
  "\<forall>x \<in> set xs. \<exists>b. c x = Inr b \<Longrightarrow> py_filter c xs = Inr (filter (\<lambda>x. c x = Inr True) xs)"
  by (induction xs) auto

lemma is_valid_Region: "is_valid t \<Longrightarrow> \<exists>r. Region t = Some r"
  by (auto simp: is_valid_iff blank_def split: option.splits)

lemma region_filter_closed:
  assumes "\<forall>a \<in> set xs. \<exists>r. Region (h a) = Some r"
  shows "region_filter h region xs =
           Inr (filter (\<lambda>a. keeps_region region (h a)) xs,
                length xs - length (filter (\<lambda>a. keeps_region region (h a)) xs))"
proof (cases region)
  case None
  then show ?thesis by (simp add: region_filter_def keeps_region_def)
next
  case (Some r)
  show ?thesis
  proof (cases "r = []")
    case True
    with Some show ?thesis by (simp add: region_filter_def keeps_region_def)
  next
    case False
    have ok: "\<forall>a \<in> set xs. \<exists>b. region_is r (h a) = Inr b"
      using assms by (auto simp: region_is_def)
    have "filter (\<lambda>a. region_is r (h a) = Inr True) xs = filter (\<lambda>a. keeps_region region (h a)) xs"
      using assms Some False
      by (intro filter_cong) (auto simp: region_is_def keeps_region_def)
    with py_filter_Inr [OF ok] Some False show ?thesis
      by (simp add: region_filter_def)
  qed
qed


lemma amount_filter_closed:
  assumes "\<forall>a \<in> set xs. \<exists>v. trans_amount (h a) = Inr v \<and> Amount (h a) = Some v"
  shows "amount_filter h min_amount max_amount xs =
           Inr (filter (\<lambda>a. keeps_max max_amount (h a)) (filter (\<lambda>a. keeps_min min_amount (h a)) xs),
                length xs - length (filter (\<lambda>a. keeps_max max_amount (h a))
                                      (filter (\<lambda>a. keeps_min min_amount (h a)) xs)))"
proof -
  let ?ys = "filter (\<lambda>a. keeps_min min_amount (h a)) xs"
  let ?zs = "filter (\<lambda>a. keeps_max max_amount (h a)) ?ys"
  have min_step: "(case min_amount of
                     None \<Rightarrow> Inr xs
                   | Some m \<Rightarrow> py_filter (\<lambda>a. amount_ge m (h a)) xs) = Inr ?ys"
  proof (cases min_amount)
    case None
    then show ?thesis by (simp add: keeps_min_def)
  next
    case (Some m)
    have ok: "\<forall>a \<in> set xs. \<exists>b. amount_ge m (h a) = Inr b"
      using assms by (auto simp: amount_ge_def)
    have "filter (\<lambda>a. amount_ge m (h a) = Inr True) xs = ?ys"
      using assms Some by (intro filter_cong) (auto simp: amount_ge_def keeps_min_def)
    with py_filter_Inr [OF ok] Some show ?thesis by simp
  qed
  have max_step: "(case max_amount of
                     None \<Rightarrow> Inr ?ys
                   | Some m \<Rightarrow> py_filter (\<lambda>a. amount_le m (h a)) ?ys) = Inr ?zs"
  proof (cases max_amount)
    case None
    then show ?thesis by (simp add: keeps_max_def)
  next
    case (Some m)
    have ok: "\<forall>a \<in> set ?ys. \<exists>b. amount_le m (h a) = Inr b"
      using assms by (auto simp: amount_le_def)
    have "filter (\<lambda>a. amount_le m (h a) = Inr True) ?ys = ?zs"
      using assms Some by (intro filter_cong) (auto simp: amount_le_def keeps_max_def)
    with py_filter_Inr [OF ok] Some show ?thesis by simp
  qed
  show ?thesis
  proof (cases "min_amount \<noteq> None \<or> max_amount \<noteq> None")
    case True
    then show ?thesis
      unfolding amount_filter_def Let_def min_step
      by (simp add: max_step)
  next
    case False
    then show ?thesis
      by (simp add: amount_filter_def keeps_min_def keeps_max_def)
  qed
qed

lemma keeps_with_amount [simp]:
  "keeps_region region (with_amount t) = keeps_region region t"
  "keeps_min mn (with_amount t) = keeps_min mn t"
  "keeps_max mx (with_amount t) = keeps_max mx t"
  by (simp_all add: keeps_region_def keeps_min_def keeps_max_def split: option.splits)

lemma validate_and_filter_closed:
  assumes "texts_ok maxd h refs" and "amounts_ok h refs"
  shows "validate_and_filter maxd h refs region min_amount max_amount =
           Inr (store_after h (valid_refs h refs),
                kept h region min_amount max_amount (valid_refs h refs),
                length (filter (\<lambda>a. \<not> is_valid (h a)) refs),
                \<lparr>total_input = length refs,
                 invalid = length (filter (\<lambda>a. \<not> is_valid (h a)) refs),
                 filtered_by_region =
                   length (valid_refs h refs)
                     - length (filter (\<lambda>a. keeps_region region (h a)) (valid_refs h refs)),
                 filtered_by_amount =
                   length (filter (\<lambda>a. keeps_region region (h a)) (valid_refs h refs))
                     - length (kept h region min_amount max_amount (valid_refs h refs)),
                 final_count = length (kept h region min_amount max_amount (valid_refs h refs))\<rparr>)"
proof -
  let ?valid = "valid_refs h refs"
  let ?h1 = "store_after h ?valid"
  let ?r = "filter (\<lambda>a. keeps_region region (h a)) ?valid"
  have texts: "\<forall>a \<in> set refs. quantity_text_ok maxd (h a)"
    using assms(1) by (simp add: texts_ok_def list_all_iff)
  have ok: "\<forall>a \<in> set ?valid. \<exists>v. trans_amount (h a) = Inr v"
    using assms(2) by (simp add: amounts_ok_def list_all_iff not_isl_iff)
  have loop: "amount_loop h ?valid = Inr ?h1"
    by (rule amount_loop_Inr [OF ok])
  have reg: "\<forall>a \<in> set ?valid. \<exists>r. Region (?h1 a) = Some r"
    by (auto simp: store_after_def valid_refs_def dest: is_valid_Region)
  have r_eq: "filter (\<lambda>a. keeps_region region (?h1 a)) ?valid = ?r"
    by (intro filter_cong) (auto simp: store_after_def)
  have rf: "region_filter ?h1 region ?valid = Inr (?r, length ?valid - length ?r)"
    using region_filter_closed [OF reg, of region] by (simp only: r_eq)
  have am: "\<forall>a \<in> set ?r. \<exists>v. trans_amount (?h1 a) = Inr v \<and> Amount (?h1 a) = Some v"
    using ok by (auto simp: store_after_def Amount_with_amount)
  have k_eq: "filter (\<lambda>a. keeps_max max_amount (?h1 a)) (filter (\<lambda>a. keeps_min min_amount (?h1 a)) ?r)
                = kept h region min_amount max_amount ?valid"
    unfolding kept_def
    by (intro filter_cong refl) (auto simp: store_after_def)
  have af: "amount_filter ?h1 min_amount max_amount ?r =
              Inr (kept h region min_amount max_amount ?valid,
                   length ?r - length (kept h region min_amount max_amount ?valid))"
    using amount_filter_closed [OF am, of min_amount max_amount] by (simp only: k_eq)
  show ?thesis
    unfolding validate_and_filter_def
    by (simp add: validation_loop_eq [OF texts] valid_refs_def [symmetric] loop rf af)
qed

lemma validate_and_filter_Inr_texts_ok:
  assumes "validate_and_filter maxd h refs region min_amount max_amount = Inr res"
  shows "texts_ok maxd h refs"
proof -
  from assms obtain r where "validation_loop maxd h refs ([], 0) = Inr r"
    unfolding validate_and_filter_def
    by (auto simp: Let_def split: sum.splits)
  from validation_loop_Inr_D [OF this] show ?thesis
    by (simp add: texts_ok_def list_all_iff)
qed

lemma validate_and_filter_Inr_amounts_ok:
  assumes "validate_and_filter maxd h refs region min_amount max_amount = Inr res"
  shows "amounts_ok h refs"
proof -
  have "\<forall>a \<in> set refs. quantity_text_ok maxd (h a)"
    using validate_and_filter_Inr_texts_ok [OF assms] by (simp add: texts_ok_def list_all_iff)
  note loop = validation_loop_eq [OF this, of "[]" 0]
  from assms obtain h1 where "amount_loop h (valid_refs h refs) = Inr h1"
    unfolding validate_and_filter_def
    by (auto simp: loop valid_refs_def split: sum.splits)
  from amount_loop_Inr_D [OF this] show ?thesis
    by (simp add: amounts_ok_def list_all_iff not_isl_iff)
qed

lemma validate_and_filter_returns_iff:
  "(\<exists>res. validate_and_filter maxd h refs region min_amount max_amount = Inr res)
     \<longleftrightarrow> texts_ok maxd h refs \<and> amounts_ok h refs"
  using validate_and_filter_closed validate_and_filter_Inr_texts_ok
    validate_and_filter_Inr_amounts_ok
  by blast

subsection \<open>Evaluation of the example data\<close>

lemma is_valid_mk_transaction:
  "is_valid (mk_transaction tid d pid name q u cid r) \<longleftrightarrow>
     py_strip tid \<noteq> [] \<and> py_strip d \<noteq> [] \<and> py_strip pid \<noteq> [] \<and> py_strip name \<noteq> []
     \<and> py_strip cid \<noteq> [] \<and> py_strip r \<noteq> [] \<and> 0 < q \<and> \<not> fl_le u (Fin 0)
     \<and> startswith tid (CHR ''T'') \<and> startswith pid (CHR ''P'') \<and> startswith cid (CHR ''C'')"
  by (auto simp: is_valid_iff mk_transaction_def blank_def get_str_def)

lemma six_rules_mk_transaction:
  "six_rules (mk_transaction tid d pid name q u cid r) \<longleftrightarrow>
     py_strip tid \<noteq> [] \<and> py_strip d \<noteq> [] \<and> py_strip pid \<noteq> [] \<and> py_strip name \<noteq> []
     \<and> py_strip cid \<noteq> [] \<and> py_strip r \<noteq> [] \<and> 0 < q \<and> fl_gt u (Fin 0)
     \<and> startswith tid (CHR ''T'') \<and> startswith pid (CHR ''P'') \<and> startswith cid (CHR ''C'')"
  by (auto simp: six_rules_def mk_transaction_def blank_def get_str_def)

lemma six_rules_stated_mk_transaction:
  "six_rules_stated (mk_transaction tid d pid name q u cid r) \<longleftrightarrow>
     tid \<noteq> [] \<and> d \<noteq> [] \<and> pid \<noteq> [] \<and> name \<noteq> [] \<and> cid \<noteq> [] \<and> r \<noteq> []
     \<and> 0 < q \<and> fl_gt u (Fin 0)
     \<and> startswith tid (CHR ''T'') \<and> startswith pid (CHR ''P'') \<and> startswith cid (CHR ''C'')"
  by (auto simp: six_rules_stated_def mk_transaction_def present_nonempty_def get_str_def)

lemma trans_amount_mk_transaction:
  "trans_amount (mk_transaction tid d pid name q u cid r) = int_mul_float q u"
  by (simp add: trans_amount_def mk_transaction_def)

lemma fields_mk_transaction:
  "Region (mk_transaction tid d pid name q u cid r) = Some r"
  "UnitPrice (mk_transaction tid d pid name q u cid r) = Some u"
  "Quantity (mk_transaction tid d pid name q u cid r) = Some q"
  "Amount (mk_transaction tid d pid name q u cid r) = None"
  by (simp_all add: mk_transaction_def)

lemma dec_digits_le: "\<bar>n\<bar> < 10 ^ k \<Longrightarrow> 0 < k \<Longrightarrow> dec_digits n \<le> k"
  by (auto simp: dec_digits_def floorlog_le_iff nat_less_iff)

lemma few_digits_text:
  "\<bar>n\<bar> < 10 ^ k \<Longrightarrow> 0 < k \<Longrightarrow> k < 640 \<Longrightarrow> \<not> int_str_raises maxd n"
  using dec_digits_le [of n k] by (auto simp: int_str_raises_def)

lemma one_digit_text: "\<bar>n\<bar> < 10 \<Longrightarrow> \<not> int_str_raises maxd n"
  using few_digits_text [of n 1] by simp

lemma quantity_text_ok_mk_transaction:
  "quantity_text_ok maxd (mk_transaction tid d pid name q u cid r) \<longleftrightarrow> \<not> int_str_raises maxd q"
  by (simp add: quantity_text_ok_def mk_transaction_def)

lemma py_strip_Cons_nonspace: "\<not> is_space c \<Longrightarrow> py_strip (c # s) \<noteq> []"
  by (simp add: py_strip_def dropWhile_append)

lemma py_strip_space: "py_strip '' '' = []"
  by (simp add: py_strip_def is_space_def)

lemma example_products:
  "int_mul_float 2 (Fin 10) = Inr (Fin 20)"
  "int_mul_float 1 (Fin 20) = Inr (Fin 20)"
  "int_mul_float 1 (Fin 5) = Inr (Fin 5)"
  "int_mul_float 3 (Fin 7) = Inr (Fin 21)"
  "int_mul_float 2 (Fin 45000) = Inr (Fin 90000)"
  "int_mul_float 2 NaN = Inr NaN"
  by code_simp+

lemmas example_eval =
  example_store_def is_valid_mk_transaction six_rules_mk_transaction
  six_rules_stated_mk_transaction trans_amount_mk_transaction fields_mk_transaction
  py_strip_Cons_nonspace py_strip_space is_space_def startswith_def example_products
  fl_gt_def fl_ge_def amounts_ok_def valid_refs_def kept_def keeps_region_def keeps_min_def
  keeps_max_def texts_ok_def quantity_text_ok_mk_transaction one_digit_text


subsection \<open>An integer too large for a float\<close>







subsection \<open>The admitted list\<close>

lemma kept_no_filters [simp]: "kept h None None None xs = xs"
  by (simp add: kept_def keeps_region_def keeps_min_def keeps_max_def)

lemma set_kept_subset: "set (kept h region mn mx xs) \<subseteq> set xs"
  by (auto simp: kept_def)

lemma validate_and_filter_InrD:
  assumes "validate_and_filter maxd h refs region min_amount max_amount = Inr (h', out, n, s)"
  shows "amounts_ok h refs"
    and "h' = store_after h (valid_refs h refs)"
    and "out = kept h region min_amount max_amount (valid_refs h refs)"
    and "n = length (filter (\<lambda>a. \<not> is_valid (h a)) refs)"
    and "s = \<lparr>total_input = length refs,
              invalid = length (filter (\<lambda>a. \<not> is_valid (h a)) refs),
              filtered_by_region =
                length (valid_refs h refs)
                  - length (filter (\<lambda>a. keeps_region region (h a)) (valid_refs h refs)),
              filtered_by_amount =
                length (filter (\<lambda>a. keeps_region region (h a)) (valid_refs h refs))
                  - length (kept h region min_amount max_amount (valid_refs h refs)),
              final_count = length (kept h region min_amount max_amount (valid_refs h refs))\<rparr>"
    and "texts_ok maxd h refs"
proof -
  show ok: "amounts_ok h refs"
    by (rule validate_and_filter_Inr_amounts_ok [OF assms])
  show tx: "texts_ok maxd h refs"
    by (rule validate_and_filter_Inr_texts_ok [OF assms])
  note e = assms [unfolded validate_and_filter_closed [OF tx ok, of region min_amount max_amount]
                         sum.inject prod.inject]
  from e show "h' = store_after h (valid_refs h refs)"
    by blast
  from e show "out = kept h region min_amount max_amount (valid_refs h refs)"
    by blast
  from e show "n = length (filter (\<lambda>a. \<not> is_valid (h a)) refs)"
    by blast
  from e show "s = \<lparr>total_input = length refs,
              invalid = length (filter (\<lambda>a. \<not> is_valid (h a)) refs),
              filtered_by_region =
                length (valid_refs h refs)
                  - length (filter (\<lambda>a. keeps_region region (h a)) (valid_refs h refs)),
              filtered_by_amount =
                length (filter (\<lambda>a. keeps_region region (h a)) (valid_refs h refs))
                  - length (kept h region min_amount max_amount (valid_refs h refs)),
              final_count = length (kept h region min_amount max_amount (valid_refs h refs))\<rparr>"
    by blast
qed



subsection \<open>Filters, idempotence and the effect on the store\<close>

text \<open>
  C4. For every call that returns: the region filter, applied when a region is supplied
  and non-empty, keeps exactly the valid records whose region equals it, and
  \<^verbatim>\<open>filtered_by_region\<close> is the number it removes; the minimum filter (amount at least
  the bound) and then the maximum filter (amount at most the bound) are applied to the
  survivors, in that order, and \<^verbatim>\<open>filtered_by_amount\<close> is the number the two remove
  together; \<^verbatim>\<open>final_count\<close> is the length of the returned list.
\<close>

theorem filters_in_order_with_counts:
  assumes "validate_and_filter maxd h transactions region min_amount max_amount = Inr (h', out, n, s)"
  shows "let valid = filter (\<lambda>a. is_valid (h a)) transactions;
             by_region = filter (\<lambda>a. keeps_region region (h a)) valid;
             by_min = filter (\<lambda>a. keeps_min min_amount (h a)) by_region;
             by_max = filter (\<lambda>a. keeps_max max_amount (h a)) by_min
         in out = by_max
            \<and> filtered_by_region s = length valid - length by_region
            \<and> filtered_by_amount s = length by_region - length by_max
            \<and> final_count s = length out
            \<and> (\<forall>r. region = Some r \<and> r \<noteq> [] \<longrightarrow>
                   by_region = filter (\<lambda>a. Region (h a) = Some r) valid)"
proof -
  note d = validate_and_filter_InrD [OF assms]
  have "\<forall>r. region = Some r \<and> r \<noteq> [] \<longrightarrow>
          filter (\<lambda>a. keeps_region region (h a)) (valid_refs h transactions)
            = filter (\<lambda>a. Region (h a) = Some r) (valid_refs h transactions)"
    by (auto simp: keeps_region_def intro!: filter_cong)
  then show ?thesis
    unfolding Let_def d(3) d(5) kept_def valid_refs_def
    by simp
qed


lemma example_call:
  "validate_and_filter 4300 example_store [0, 1, 2, 3] (Some ''North'') (Some (Fin 6)) None =
     Inr (store_after example_store [0, 1, 2], [0], 1,
          \<lparr>total_input = 4, invalid = 1, filtered_by_region = 1, filtered_by_amount = 1,
           final_count = 1\<rparr>)"
proof -
  have tx: "texts_ok 4300 example_store [0, 1, 2, 3]"
    by (simp add: example_eval)
  have ok: "amounts_ok example_store [0, 1, 2, 3]"
    by (simp add: example_eval)
  show ?thesis
    unfolding validate_and_filter_closed [OF tx ok]
    by (simp add: example_eval)
qed

theorem filters_in_order_with_counts_witness:
  "let valid = filter (\<lambda>a. is_valid (example_store a)) [0, 1, 2, 3];
       by_region = filter (\<lambda>a. keeps_region (Some ''North'') (example_store a)) valid;
       by_min = filter (\<lambda>a. keeps_min (Some (Fin 6)) (example_store a)) by_region;
       by_max = filter (\<lambda>a. keeps_max None (example_store a)) by_min
   in [0] = by_max
      \<and> filtered_by_region \<lparr>total_input = 4, invalid = 1, filtered_by_region = 1,
                              filtered_by_amount = 1, final_count = 1\<rparr>
          = length valid - length by_region
      \<and> filtered_by_amount \<lparr>total_input = 4, invalid = 1, filtered_by_region = 1,
                              filtered_by_amount = 1, final_count = 1\<rparr>
          = length by_region - length by_max
      \<and> final_count \<lparr>total_input = 4, invalid = 1, filtered_by_region = 1,
                       filtered_by_amount = 1, final_count = 1\<rparr> = length [0::nat]
      \<and> (\<forall>r. Some ''North'' = Some r \<and> r \<noteq> [] \<longrightarrow>
             by_region = filter (\<lambda>a. Region (example_store a) = Some r) valid)"
  by (rule filters_in_order_with_counts [OF example_call])

lemma kept_idem:
  "kept h region mn mx (kept h region mn mx xs) = kept h region mn mx xs"
  by (auto simp: kept_def intro!: filter_cong)

lemma store_after_idem:
  assumes "set ys \<subseteq> set xs"
  shows "store_after (store_after h xs) ys = store_after h xs"
  using assms by (auto simp: store_after_def fun_eq_iff)

lemma quantity_text_ok_with_amount [simp]:
  "quantity_text_ok maxd (with_amount t) = quantity_text_ok maxd t"
  by (simp add: quantity_text_ok_def with_amount_def split: sum.splits)

lemma pointwise_store_after [simp]:
  "is_valid (store_after h xs a) = is_valid (h a)"
  "quantity_text_ok maxd (store_after h xs a) = quantity_text_ok maxd (h a)"
  "trans_amount (store_after h xs a) = trans_amount (h a)"
  "keeps_region region (store_after h xs a) = keeps_region region (h a)"
  "keeps_min mn (store_after h xs a) = keeps_min mn (h a)"
  "keeps_max mx (store_after h xs a) = keeps_max mx (h a)"
  by (simp_all add: store_after_def)

text \<open>
  C6. \<^verbatim>\<open>validate_and_filter\<close> is idempotent: applied to the list it returned, in the store
  it left, with the same filter parameters, it returns the same list and the same store,
  with no record rejected and none filtered out.
\<close>

theorem validate_and_filter_idempotent:
  assumes "validate_and_filter maxd h transactions region min_amount max_amount = Inr (h1, out, n, s)"
  shows "validate_and_filter maxd h1 out region min_amount max_amount =
           Inr (h1, out, 0,
                \<lparr>total_input = length out, invalid = 0, filtered_by_region = 0,
                 filtered_by_amount = 0, final_count = length out\<rparr>)"
proof -
  note d = validate_and_filter_InrD [OF assms]
  let ?valid = "valid_refs h transactions"
  have sub: "set out \<subseteq> set ?valid"
    unfolding d(3) by (rule set_kept_subset)
  have valid_out: "valid_refs h1 out = out"
    using sub by (auto simp: d(2) valid_refs_def intro!: filter_True)
  have none_invalid: "filter (\<lambda>a. \<not> is_valid (h1 a)) out = []"
    using sub by (auto simp: d(2) valid_refs_def filter_empty_conv)
  have ok1: "amounts_ok h1 out"
    unfolding amounts_ok_def [of h1] valid_out
    using d(1) sub by (auto simp: amounts_ok_def list_all_iff d(2))
  have "set out \<subseteq> set transactions"
    using sub by (auto simp: valid_refs_def)
  then have tx1: "texts_ok maxd h1 out"
    using d(6) by (auto simp: texts_ok_def list_all_iff d(2))
  have kept_out: "kept h1 region min_amount max_amount out = out"
    unfolding d(2) d(3) kept_def pointwise_store_after
    using kept_idem [of h region min_amount max_amount ?valid]
    by (simp only: kept_def)
  have region_out: "filter (\<lambda>a. keeps_region region (h1 a)) out = out"
    unfolding d(2) d(3) pointwise_store_after
    by (auto simp: kept_def intro!: filter_cong)
  have store_out: "store_after h1 out = h1"
    unfolding d(2) by (rule store_after_idem [OF sub])
  show ?thesis
    unfolding validate_and_filter_closed [OF tx1 ok1, of region min_amount max_amount]
      valid_out none_invalid kept_out region_out store_out
    by simp
qed

theorem validate_and_filter_idempotent_witness:
  "validate_and_filter 4300 (store_after example_store [0, 1, 2]) [0]
       (Some ''North'') (Some (Fin 6)) None =
     Inr (store_after example_store [0, 1, 2], [0], 0,
          \<lparr>total_input = length [0::nat], invalid = 0, filtered_by_region = 0,
           filtered_by_amount = 0, final_count = length [0::nat]\<rparr>)"
  by (rule validate_and_filter_idempotent [OF example_call])

text \<open>
  C9. \<^verbatim>\<open>validate_and_filter\<close> mutates its argument in place: after the call every valid
  dictionary of the caller's list has the key \<^verbatim>\<open>Amount\<close>, equal to
  \<^verbatim>\<open>Quantity * UnitPrice\<close>, and is otherwise unchanged; no other object changes; and the
  returned list holds addresses of the input list, in the input order: the same objects,
  not copies, so a later write through either list is seen through the other.
\<close>

theorem validate_and_filter_writes_amount_in_place:
  assumes "validate_and_filter maxd h transactions region min_amount max_amount = Inr (h', out, n, s)"
  shows "(\<forall>a \<in> set transactions. is_valid (h a) \<longrightarrow>
            (\<exists>q u v. Quantity (h a) = Some q \<and> UnitPrice (h a) = Some u
                     \<and> int_mul_float q u = Inr v \<and> h' a = (h a)\<lparr>Amount := Some v\<rparr>))
       \<and> (\<forall>a. \<not> (a \<in> set transactions \<and> is_valid (h a)) \<longrightarrow> h' a = h a)
       \<and> out = filter (\<lambda>a. a \<in> set out) transactions"
proof -
  note d = validate_and_filter_InrD [OF assms]
  have amt: "\<exists>q u v. Quantity (h a) = Some q \<and> UnitPrice (h a) = Some u
                     \<and> int_mul_float q u = Inr v \<and> h' a = (h a)\<lparr>Amount := Some v\<rparr>"
    if "a \<in> set transactions" "is_valid (h a)" for a
  proof -
    from that have mem: "a \<in> set (valid_refs h transactions)"
      by (simp add: valid_refs_def)
    with d(1) obtain v where v: "trans_amount (h a) = Inr v"
      by (auto simp: amounts_ok_def list_all_iff not_isl_iff)
    then obtain q u where "Quantity (h a) = Some q" "UnitPrice (h a) = Some u"
        "int_mul_float q u = Inr v"
      by (auto simp: trans_amount_def split: option.splits)
    moreover have "h' a = (h a)\<lparr>Amount := Some v\<rparr>"
      using mem v by (simp add: d(2) store_after_def with_amount_def)
    ultimately show ?thesis by blast
  qed
  have frame: "h' a = h a" if "\<not> (a \<in> set transactions \<and> is_valid (h a))" for a
    using that by (auto simp: d(2) store_after_def valid_refs_def)
  have "out = filter (\<lambda>a. a \<in> set out) transactions"
    unfolding d(3) kept_def valid_refs_def
    by (auto simp: intro!: filter_cong)
  with amt frame show ?thesis by blast
qed


theorem validate_and_filter_writes_amount_in_place_witness:
  "Amount (example_store 0) = None
   \<and> store_after example_store [0, 1, 2] 0 = (example_store 0)\<lparr>Amount := Some (Fin 20)\<rparr>
   \<and> store_after example_store [0, 1, 2] 1 = (example_store 1)\<lparr>Amount := Some (Fin 20)\<rparr>
   \<and> store_after example_store [0, 1, 2] 3 = example_store 3
   \<and> [0] = filter (\<lambda>a. a \<in> set [0::nat]) [0, 1, 2, 3]"
proof -
  note w = validate_and_filter_writes_amount_in_place [OF example_call]
  from w have "\<exists>q u v. Quantity (example_store 0) = Some q \<and> UnitPrice (example_store 0) = Some u
                 \<and> int_mul_float q u = Inr v
                 \<and> store_after example_store [0, 1, 2] 0 = (example_store 0)\<lparr>Amount := Some v\<rparr>"
    by (simp add: example_eval)
  then have a0: "store_after example_store [0, 1, 2] 0 = (example_store 0)\<lparr>Amount := Some (Fin 20)\<rparr>"
    by (auto simp: example_eval)
  from w have "\<exists>q u v. Quantity (example_store 1) = Some q \<and> UnitPrice (example_store 1) = Some u
                 \<and> int_mul_float q u = Inr v
                 \<and> store_after example_store [0, 1, 2] 1 = (example_store 1)\<lparr>Amount := Some v\<rparr>"
    by (simp add: example_eval)
  then have a1: "store_after example_store [0, 1, 2] 1 = (example_store 1)\<lparr>Amount := Some (Fin 20)\<rparr>"
    by (auto simp: example_eval)
  from w have "\<not> (3 \<in> set [0::nat, 1, 2, 3] \<and> is_valid (example_store 3))
                 \<longrightarrow> store_after example_store [0, 1, 2] 3 = example_store 3"
    by blast
  then have a3: "store_after example_store [0, 1, 2] 3 = example_store 3"
    by (simp add: example_eval)
  from w have al: "[0] = filter (\<lambda>a. a \<in> set [0::nat]) [0, 1, 2, 3]"
    by blast
  have "Amount (example_store 0) = None"
    by (simp add: example_eval)
  with a0 a1 a3 al show ?thesis by blast
qed

section \<open>Record parser\<close>

lemma py_replace_remove: "py_replace c [] s = filter (\<lambda>x. x \<noteq> c) s"
  by (induction s) (simp_all add: py_replace_def)

lemma py_replace_single: "py_replace c [d] s = map (\<lambda>x. if x = c then d else x) s"
  by (induction s) (simp_all add: py_replace_def)

lemma spec_parse_line_eq:
  "spec_parse_line maxd line = (case parse_line maxd line of None \<Rightarrow> [] | Some t \<Rightarrow> [t])"
  by (simp add: spec_parse_line_def parse_line_def Let_def py_replace_remove py_replace_single
           split: sum.splits)

lemma parse_loop_eq:
  "parse_loop maxd ls (acc, k) =
     (acc @ concat (map (spec_parse_line maxd) ls),
      k + length (filter (\<lambda>l. spec_parse_line maxd l = []) ls))"
  by (induction ls arbitrary: acc k) (simp_all add: spec_parse_line_eq split: option.splits)

lemma split_example:
  "py_split (CHR ''|'') example_line =
     [''T001'', ''2024-12-01'', ''P101'', ''Laptop'', ''2'', ''45,000'', ''C001'', ''North'']"
  by (simp add: example_line_def)

lemma py_strip_nonspace_ends:
  "\<not> is_space c \<Longrightarrow> \<not> is_space (last (c # s)) \<Longrightarrow> py_strip (c # s) = c # s"
  by (cases "rev s") (auto simp: py_strip_def)

lemma int_example: "py_int maxd ''2'' = Inr 2"
  by (simp add: py_int_def num_strip_def is_num_space_def split_sign_def is_digit_def
        digits_val_def digit_val_def)

lemma float_example: "py_float ''45000'' = Inr (Fin 45000)"
  by code_simp

lemma parse_example:
  "spec_parse_line maxd example_line =
     [mk_transaction ''T001'' ''2024-12-01'' ''P101'' ''Laptop'' 2 (Fin 45000) ''C001'' ''North'']"
  by (simp add: spec_parse_line_def split_example py_strip_nonspace_ends is_space_def
        int_example float_example mk_transaction_def)


lemma parse_transactions_eq:
  "parse_transactions maxd ls = concat (map (spec_parse_line maxd) ls)"
  by (simp add: parse_transactions_def parse_loop_eq)

lemma example_text_ok:
  "texts_ok maxd (\<lambda>a. mk_transaction ''T001'' ''2024-12-01'' ''P101'' ''Laptop'' 2 (Fin 45000) ''C001'' ''North'') [0]"
  by (simp add: example_eval)

lemma example_amount_ok:
  "amounts_ok (\<lambda>a. mk_transaction ''T001'' ''2024-12-01'' ''P101'' ''Laptop'' 2 (Fin 45000) ''C001'' ''North'') [0]"
  by (simp add: example_eval)

text \<open>
  C5. Every raw line is parsed on its own: the parsed batch is the concatenation of what
  each line contributes, and the skipped count is the number of lines contributing
  nothing. A line that does not split into exactly 8 fields is skipped and the lines
  after it are still parsed; a line of 8 fields is trimmed field by field, the commas are
  removed from the quantity and unit price texts before conversion to int and float, and
  the commas of the product name become spaces. The line
  \<^verbatim>\<open>T001|2024-12-01|P101|Laptop|2|45,000|C001|North\<close> parses to quantity 2 and unit price
  45000.0, and that transaction is admitted with amount 90000.0.
\<close>

theorem parse_transactions_line_by_line:
  "parse_transactions maxd raw_lines = concat (map (spec_parse_line maxd) raw_lines)
   \<and> snd (parse_loop maxd raw_lines ([], 0))
       = length (filter (\<lambda>l. spec_parse_line maxd l = []) raw_lines)
   \<and> (length (py_split (CHR ''|'') line) \<noteq> 8 \<longrightarrow>
        parse_transactions maxd (before @ [line] @ rest)
          = parse_transactions maxd before @ parse_transactions maxd rest)
   \<and> parse_transactions maxd (before @ [example_line] @ rest)
       = parse_transactions maxd before
         @ [mk_transaction ''T001'' ''2024-12-01'' ''P101'' ''Laptop'' 2 (Fin 45000) ''C001'' ''North'']
         @ parse_transactions maxd rest
   \<and> (\<exists>h' s. validate_and_filter maxd
                 (\<lambda>a. mk_transaction ''T001'' ''2024-12-01'' ''P101'' ''Laptop'' 2 (Fin 45000)
                         ''C001'' ''North'')
                 [0] None None None = Inr (h', [0], 0, s)
               \<and> Amount (h' 0) = Some (Fin 90000))"
proof -
  have skip: "length (py_split (CHR ''|'') line) \<noteq> 8 \<longrightarrow>
        parse_transactions maxd (before @ [line] @ rest)
          = parse_transactions maxd before @ parse_transactions maxd rest"
    by (simp add: parse_transactions_eq spec_parse_line_def)
  have ex: "parse_transactions maxd (before @ [example_line] @ rest)
       = parse_transactions maxd before
         @ [mk_transaction ''T001'' ''2024-12-01'' ''P101'' ''Laptop'' 2 (Fin 45000) ''C001'' ''North'']
         @ parse_transactions maxd rest"
    by (simp add: parse_transactions_eq parse_example)
  have adm: "\<exists>h' s. validate_and_filter maxd
                 (\<lambda>a. mk_transaction ''T001'' ''2024-12-01'' ''P101'' ''Laptop'' 2 (Fin 45000)
                         ''C001'' ''North'')
                 [0] None None None = Inr (h', [0], 0, s)
               \<and> Amount (h' 0) = Some (Fin 90000)"
    unfolding validate_and_filter_closed [OF example_text_ok example_amount_ok]
    by (simp add: example_eval store_after_def with_amount_def)
  show ?thesis
    using skip ex adm
    by (simp add: parse_transactions_eq parse_loop_eq)
qed

theorem parse_transactions_line_by_line_witness:
  "length (py_split (CHR ''|'') ''T002|2024-12-01|P102|Mouse|1|500|C002'') = 7
   \<and> parse_transactions 4300 [''T002|2024-12-01|P102|Mouse|1|500|C002'', example_line]
       = [mk_transaction ''T001'' ''2024-12-01'' ''P101'' ''Laptop'' 2 (Fin 45000) ''C001'' ''North'']"
proof -
  have n: "length (py_split (CHR ''|'') ''T002|2024-12-01|P102|Mouse|1|500|C002'') = 7"
    by simp
  have e: "parse_transactions 4300 [] = []"
    by (simp add: parse_transactions_def)
  from parse_transactions_line_by_line
         [of 4300 "[]" "''T002|2024-12-01|P102|Mouse|1|500|C002''" "[]" "[example_line]"]
  have "parse_transactions 4300 ([] @ [''T002|2024-12-01|P102|Mouse|1|500|C002''] @ [example_line])
          = parse_transactions 4300 [] @ parse_transactions 4300 [example_line]"
    using n by simp
  moreover
  from parse_transactions_line_by_line [of 4300 "[]" "[]" "[]" "[]"]
  have "parse_transactions 4300 ([] @ [example_line] @ [])
          = parse_transactions 4300 []
            @ [mk_transaction ''T001'' ''2024-12-01'' ''P101'' ''Laptop'' 2 (Fin 45000) ''C001'' ''North'']
            @ parse_transactions 4300 []"
    by blast
  ultimately show ?thesis
    using n e by simp
qed

section \<open>Aggregator\<close>

subsection \<open>Grouping into a dictionary of accumulators\<close>

lemma map_of_dict_upd:
  "map_of (dict_upd k dflt f d) =
     (map_of d)(k \<mapsto> f (case map_of d k of None \<Rightarrow> dflt | Some v \<Rightarrow> v))"
  by (induction d) (auto simp: fun_eq_iff)

lemma keys_dict_upd:
  "map fst (dict_upd k dflt f d) = (if k \<in> fst ` set d then map fst d else map fst d @ [k])"
  by (induction d) (force simp: image_iff)+

lemma set_first_seen [simp]: "set (first_seen xs) = set xs"
  by (induction xs rule: first_seen.induct) auto

lemma distinct_first_seen [simp]: "distinct (first_seen xs)"
  by (induction xs rule: first_seen.induct) auto

lemma keys_group_fold:
  "map fst (group_fold key dflt step ts d) =
     map fst d @ first_seen (filter (\<lambda>k. k \<notin> fst ` set d) (map key ts))"
proof (induction ts arbitrary: d)
  case Nil
  show ?case by (simp add: group_fold_def)
next
  case (Cons t ts)
  let ?d = "dict_upd (key t) dflt (step t) d"
  have step: "group_fold key dflt step (t # ts) d = group_fold key dflt step ts ?d"
    by (simp add: group_fold_def)
  show ?case
  proof (cases "key t \<in> fst ` set d")
    case True
    then have "fst ` set ?d = fst ` set d"
      using keys_dict_upd [of "key t" dflt "step t" d] by (metis set_map)
    with True show ?thesis
      unfolding step Cons.IH by (simp add: keys_dict_upd)
  next
    case False
    then have k: "map fst ?d = map fst d @ [key t]"
      by (simp add: keys_dict_upd)
    then have s: "fst ` set ?d = insert (key t) (fst ` set d)"
      by (metis Un_insert_right append_Nil2 list.simps(15) set_append set_map)
    have "filter (\<lambda>k. k \<notin> insert (key t) (fst ` set d)) (map key ts)
            = filter (\<lambda>y. y \<noteq> key t) (filter (\<lambda>k. k \<notin> fst ` set d) (map key ts))"
      by (auto intro!: filter_cong)
    with False show ?thesis
      unfolding step Cons.IH k s by simp
  qed
qed

lemma map_of_group_fold:
  "map_of (group_fold key dflt step ts d) p =
     (if p \<in> key ` set ts \<or> p \<in> fst ` set d
      then Some (foldl (\<lambda>v t. step t v) (case map_of d p of None \<Rightarrow> dflt | Some v \<Rightarrow> v)
                   (filter (\<lambda>t. key t = p) ts))
      else None)"
proof (induction ts arbitrary: d)
  case Nil
  show ?case
    by (auto simp: group_fold_def map_of_eq_None_iff split: option.splits)
next
  case (Cons t ts)
  let ?d = "dict_upd (key t) dflt (step t) d"
  have step: "group_fold key dflt step (t # ts) d = group_fold key dflt step ts ?d"
    by (simp add: group_fold_def)
  have keys: "fst ` set ?d = insert (key t) (fst ` set d)"
    using keys_dict_upd [of "key t" dflt "step t" d]
    by (metis (no_types, lifting) Un_insert_right append_Nil2 insert_absorb list.simps(15)
          set_append set_map)
  show ?case
    unfolding step Cons.IH keys
    by (auto simp: map_of_dict_upd)
qed

lemma distinct_keys_group_fold:
  "distinct (map fst d) \<Longrightarrow> distinct (map fst (group_fold key dflt step ts d))"
  by (auto simp: keys_group_fold)

lemma alist_by_keys:
  "distinct (map fst d) \<Longrightarrow> d = map (\<lambda>k. (k, the (map_of d k))) (map fst d)"
proof (induction d)
  case Nil
  show ?case by simp
next
  case (Cons a d)
  obtain k v where a: "a = (k, v)" by (cases a)
  from Cons.prems a have notin: "k \<notin> set (map fst d)" and dist: "distinct (map fst d)"
    by simp_all
  have "map (\<lambda>k'. (k', the (map_of ((k, v) # d) k'))) (map fst d)
          = map (\<lambda>k'. (k', the (map_of d k'))) (map fst d)"
    using notin by (intro map_cong) auto
  with Cons.IH [OF dist] show ?case
    by (simp add: a)
qed

lemma group_fold_grouped: "group_fold key dflt step ts [] = grouped key dflt step ts"
proof -
  let ?g = "group_fold key dflt step ts []"
  have d: "distinct (map fst ?g)"
    by (simp add: distinct_keys_group_fold)
  have k: "map fst ?g = first_seen (map key ts)"
    by (simp add: keys_group_fold)
  have "?g = map (\<lambda>p. (p, the (map_of ?g p))) (first_seen (map key ts))"
    using alist_by_keys [OF d] unfolding k .
  also have "\<dots> = grouped key dflt step ts"
    unfolding grouped_def
    by (rule map_cong) (auto simp: map_of_group_fold)
  finally show ?thesis .
qed

subsection \<open>Stable descending sort\<close>

lemma sort_desc_Cons:
  "sort_desc lt key (x # xs) = insert_desc lt key x (sort_desc lt key xs)"
  by (simp add: sort_desc_def)

lemma set_insert_desc [simp]: "set (insert_desc lt key x ys) = insert x (set ys)"
  by (induction ys) auto

lemma set_sort_desc [simp]: "set (sort_desc lt key xs) = set xs"
  by (induction xs) (simp_all add: sort_desc_def)

lemma length_insert_desc [simp]: "length (insert_desc lt key x ys) = Suc (length ys)"
  by (induction ys) auto

lemma length_sort_desc [simp]: "length (sort_desc lt key xs) = length xs"
  by (induction xs) (simp_all add: sort_desc_def)

lemma distinct_insert_desc:
  "distinct (map f (insert_desc lt key x ys)) \<longleftrightarrow> distinct (map f (x # ys))"
  by (induction ys) auto

lemma distinct_sort_desc:
  "distinct (map f (sort_desc lt key xs)) \<longleftrightarrow> distinct (map f xs)"
  by (induction xs) (simp_all add: sort_desc_Cons distinct_insert_desc, simp add: sort_desc_def)

lemma sorted_insert_desc:
  fixes key :: "'a \<Rightarrow> 'k::linorder"
  assumes "sorted_wrt (\<lambda>a b. key b \<le> key a) ys"
  shows "sorted_wrt (\<lambda>a b. key b \<le> key a) (insert_desc (<) key x ys)"
  using assms by (induction ys) (auto simp: not_less)

lemma sorted_sort_desc:
  fixes key :: "'a \<Rightarrow> 'k::linorder"
  shows "sorted_wrt (\<lambda>a b. key b \<le> key a) (sort_desc (<) key xs)"
  by (induction xs) (simp_all add: sort_desc_Cons sorted_insert_desc, simp add: sort_desc_def)

lemma filter_insert_desc:
  fixes key :: "'a \<Rightarrow> 'k::linorder"
  shows "filter (\<lambda>y. key y = k) (insert_desc (<) key x ys) =
           (if key x = k then x # filter (\<lambda>y. key y = k) ys else filter (\<lambda>y. key y = k) ys)"
  by (induction ys) auto

lemma set_by_rank: "set (map snd (sort_key f (enumerate 0 xs))) = set xs"
proof -
  have "set (map snd (sort_key f (enumerate 0 xs))) = snd ` set (sort_key f (enumerate 0 xs))"
    by (rule set_map)
  also have "\<dots> = snd ` set (enumerate 0 xs)"
    by (simp only: set_sort)
  also have "\<dots> = set (map snd (enumerate 0 xs))"
    by (simp only: set_map)
  also have "\<dots> = set xs"
    by (simp only: map_snd_enumerate)
  finally show ?thesis .
qed

lemma set_sort_desc_float [simp]: "set (sort_desc_float nan_rank key xs) = set xs"
  by (cases "list_ex (\<lambda>x. key x = NaN) xs")
     (simp_all only: sort_desc_float_def if_True if_False set_by_rank set_sort_desc)

lemma sort_desc_float_ordered:
  "\<not> list_ex (\<lambda>x. key x = NaN) xs \<Longrightarrow> sort_desc_float nan_rank key xs = sort_desc fl_lt key xs"
  by (simp add: sort_desc_float_def)

lemma sort_desc_stable:
  fixes key :: "'a \<Rightarrow> 'k::linorder"
  shows "filter (\<lambda>y. key y = k) (sort_desc (<) key xs) = filter (\<lambda>y. key y = k) xs"
  by (induction xs) (simp_all add: sort_desc_Cons filter_insert_desc, simp add: sort_desc_def)

subsection \<open>Slices\<close>

lemma length_py_slice_to: "0 \<le> n \<Longrightarrow> int (length (py_slice_to n xs)) \<le> n"
  by (simp add: py_slice_to_def)

lemma sorted_wrt_py_slice_to: "sorted_wrt P xs \<Longrightarrow> sorted_wrt P (py_slice_to n xs)"
  by (simp add: py_slice_to_def sorted_wrt_take)

subsection \<open>The accumulation loops\<close>

lemma sale_value_Inr: "sale t = Inr v \<Longrightarrow> sale_value t = v"
  by (simp add: sale_value_def)

lemma product_loop_Inr:
  "\<forall>t \<in> set ts. \<not> isl (sale t) \<Longrightarrow>
     product_loop ts d =
       Inr (group_fold (\<lambda>t. get_or_unknown (ProductName t)) (0, Fin 0)
              (\<lambda>t (q, r). (q + quantity_of t, fl_add r (sale_value t))) ts d)"
proof (induction ts arbitrary: d)
  case Nil
  show ?case by (simp add: group_fold_def)
next
  case (Cons t ts)
  from Cons.prems obtain v where v: "sale t = Inr v"
    by (auto simp: not_isl_iff)
  from Cons.prems have "\<forall>t \<in> set ts. \<not> isl (sale t)" by simp
  from Cons.IH [OF this] v show ?case
    by (simp add: group_fold_def sale_value_Inr quantity_of_def)
qed

lemma product_loop_InrD: "product_loop ts d = Inr d' \<Longrightarrow> \<forall>t \<in> set ts. \<not> isl (sale t)"
  by (induction ts arbitrary: d) (auto split: sum.splits)

lemma foldl_product_step:
  "foldl (\<lambda>v t. (case v of (q, r) \<Rightarrow> (q + quantity_of t, fl_add r (sale_value t)))) (q0, r0) xs =
     (q0 + sum_list (map quantity_of xs), foldl fl_add r0 (map sale_value xs))"
  by (induction xs arbitrary: q0 r0) simp_all

lemma product_list_groups:
  "map (\<lambda>(product, q, r). (product, q, py_round2 r))
     (grouped (\<lambda>t. get_or_unknown (ProductName t)) (0, Fin 0)
        (\<lambda>t (q, r). (q + quantity_of t, fl_add r (sale_value t))) ts) = product_groups ts"
  by (simp add: grouped_def product_groups_def foldl_product_step full_sum_def)

lemma top_selling_products_Inr:
  assumes "top_selling_products ts n = Inr res"
  shows "res = py_slice_to n (sort_desc (<) (\<lambda>x. fst (snd x)) (product_groups ts))"
proof (cases "ts = []")
  case True
  with assms show ?thesis
    by (simp add: top_selling_products_def product_groups_def py_slice_to_def sort_desc_def)
next
  case False
  with assms obtain d where d: "product_loop ts [] = Inr d"
    by (auto simp: top_selling_products_def split: sum.splits)
  from product_loop_Inr [OF product_loop_InrD [OF d], of "[]"] d
  have "d = grouped (\<lambda>t. get_or_unknown (ProductName t)) (0, Fin 0)
              (\<lambda>t (q, r). (q + quantity_of t, fl_add r (sale_value t))) ts"
    by (simp add: group_fold_grouped)
  with assms False d show ?thesis
    by (simp add: top_selling_products_def product_list_groups)
qed

text \<open>
  C8. For every transaction list and every count \<open>n\<close> for which the call returns:
  \<^verbatim>\<open>top_selling_products\<close> returns at most \<open>n\<close> entries; they are the first \<open>n\<close> entries of a
  list that holds the product groups (grouped by product name, with summed quantity and
  summed revenue), ordered by non-increasing quantity, groups of equal quantity in
  first-seen order; so each entry's quantity is at least the next entry's quantity.
\<close>

theorem top_selling_products_sorted_groups:
  assumes "top_selling_products transactions (int n) = Inr res"
  shows "length res \<le> n
       \<and> sorted_wrt (\<lambda>a b. fst (snd b) \<le> fst (snd a)) res
       \<and> (\<exists>full. res = take n full
             \<and> sorted_wrt (\<lambda>a b. fst (snd b) \<le> fst (snd a)) full
             \<and> (\<forall>k. filter (\<lambda>e. fst (snd e) = k) full
                       = filter (\<lambda>e. fst (snd e) = k) (product_groups transactions)))"
proof -
  let ?full = "sort_desc (<) (\<lambda>x. fst (snd x)) (product_groups transactions)"
  have "res = py_slice_to (int n) ?full"
    by (rule top_selling_products_Inr [OF assms])
  then have res: "res = take n ?full"
    by (simp add: py_slice_to_def)
  have sorted: "sorted_wrt (\<lambda>a b. fst (snd b) \<le> fst (snd a)) ?full"
    by (rule sorted_sort_desc)
  have stable: "\<forall>k. filter (\<lambda>e. fst (snd e) = k) ?full
                       = filter (\<lambda>e. fst (snd e) = k) (product_groups transactions)"
    by (simp add: sort_desc_stable)
  have "length res \<le> n"
    unfolding res by simp
  moreover have "sorted_wrt (\<lambda>a b. fst (snd b) \<le> fst (snd a)) res"
    unfolding res using sorted by (rule sorted_wrt_take)
  ultimately show ?thesis
    using res sorted stable by blast
qed

lemma top_example_1: "top_selling_products example_sales (int 1) = Inr [(''Mouse'', 3, Fin 25)]"
  by code_simp

theorem top_selling_products_sorted_groups_witness:
  "top_selling_products example_sales (int 1) = Inr [(''Mouse'', 3, Fin 25)]
   \<and> length [(''Mouse'', 3::int, Fin 25)] \<le> 1
   \<and> sorted_wrt (\<lambda>a b. fst (snd b) \<le> fst (snd a)) [(''Mouse'', 3::int, Fin 25)]"
  using top_selling_products_sorted_groups [OF top_example_1] top_example_1
  by simp

subsection \<open>Regions\<close>

lemma total_loop_Inr:
  "\<forall>t \<in> set ts. \<not> isl (sale t) \<Longrightarrow>
     total_loop ts acc = Inr (foldl fl_add acc (map sale_value ts))"
proof (induction ts arbitrary: acc)
  case Nil
  show ?case by simp
next
  case (Cons t ts)
  from Cons.prems obtain v where v: "sale t = Inr v"
    by (auto simp: not_isl_iff)
  from Cons.prems have "\<forall>t \<in> set ts. \<not> isl (sale t)" by simp
  from Cons.IH [OF this] v show ?case
    by (simp add: sale_value_Inr)
qed

lemma total_loop_InrD: "total_loop ts acc = Inr r \<Longrightarrow> \<forall>t \<in> set ts. \<not> isl (sale t)"
  by (induction ts arbitrary: acc) (auto split: sum.splits)

lemma calculate_total_revenue_Inr:
  assumes "calculate_total_revenue ts = Inr T" and "ts \<noteq> []"
  shows "T = py_round2 (full_sum ts)"
proof -
  from assms obtain acc where acc: "total_loop ts (Fin 0) = Inr acc" and T: "T = py_round2 acc"
    by (auto simp: calculate_total_revenue_def split: sum.splits)
  from total_loop_Inr [OF total_loop_InrD [OF acc], of "Fin 0"] acc
  have "acc = full_sum ts"
    by (simp add: full_sum_def)
  with T show ?thesis by simp
qed

lemma region_loop_Inr:
  "\<forall>t \<in> set ts. \<not> isl (sale t) \<Longrightarrow>
     region_loop ts d =
       Inr (group_fold (\<lambda>t. get_or_unknown (Region t)) (Fin 0, 0)
              (\<lambda>t (s, c). (fl_add s (sale_value t), c + 1)) ts d)"
proof (induction ts arbitrary: d)
  case Nil
  show ?case by (simp add: group_fold_def)
next
  case (Cons t ts)
  from Cons.prems obtain v where v: "sale t = Inr v"
    by (auto simp: not_isl_iff)
  from Cons.prems have "\<forall>t \<in> set ts. \<not> isl (sale t)" by simp
  from Cons.IH [OF this] v show ?case
    by (simp add: group_fold_def sale_value_Inr)
qed

lemma region_loop_InrD: "region_loop ts d = Inr d' \<Longrightarrow> \<forall>t \<in> set ts. \<not> isl (sale t)"
  by (induction ts arbitrary: d) (auto split: sum.splits)

lemma foldl_region_step:
  "foldl (\<lambda>v t. (case v of (s, c) \<Rightarrow> (fl_add s (sale_value t), Suc c))) (s0, c0) xs =
     (foldl fl_add s0 (map sale_value xs), c0 + length xs)"
  by (induction xs arbitrary: s0 c0) simp_all

lemma map_err_Inr_set:
  "map_err f xs = Inr ys \<Longrightarrow> y \<in> set ys \<Longrightarrow> \<exists>x \<in> set xs. f x = Inr y"
  by (induction xs arbitrary: ys) (auto split: sum.splits)

lemma map_err_Inr_all:
  "map_err f xs = Inr ys \<Longrightarrow> x \<in> set xs \<Longrightarrow> \<exists>y \<in> set ys. f x = Inr y"
  by (induction xs arbitrary: ys) (auto split: sum.splits)

lemma py_round2_zero [simp]: "py_round2 (Fin 0) = Fin 0"
  by (simp add: round_half_even_def dbl_round_def)

lemma fl_div_by_positive: "fl_gt T (Fin 0) \<Longrightarrow> \<exists>q. fl_div g T = Inr q"
  by (cases g; cases T) (auto simp: fl_gt_def)

lemma region_row_Inr:
  assumes "region_row T (r', g, c) = Inr (r, row)"
  shows "r = r' \<and> total_sales row = py_round2 g \<and> transaction_count row = c
       \<and> (fl_gt T (Fin 0) \<longrightarrow> (\<exists>q. fl_div g T = Inr q \<and> percentage row = py_round2 (fl_mul q (Fin 100))))
       \<and> (\<not> fl_gt T (Fin 0) \<longrightarrow> percentage row = Fin 0)"
  using assms
  by (auto simp: region_row_def py_round2_zero simp del: py_round2.simps
           split: sum.splits if_splits)


text \<open>
  C7, as amended. For every transaction list on which \<^verbatim>\<open>region_wise_sales\<close> returns and
  every region of its result: the percentage is \<^verbatim>\<open>round(group_revenue / T * 100, 2)\<close>,
  where \<open>group_revenue\<close> is the full-precision running sum of the region and \<open>T\<close> is the
  value of \<^verbatim>\<open>calculate_total_revenue\<close>, the total revenue already rounded to two
  decimals; it is \<open>0.0\<close> when \<open>T\<close> is not greater than 0.
\<close>

theorem region_percentage_uses_rounded_total:
  assumes "region_wise_sales nan_rank transactions = Inr res" and "(r, row) \<in> set res"
  shows "\<exists>T. calculate_total_revenue transactions = Inr T
           \<and> T = py_round2 (full_sum transactions)
           \<and> total_sales row
               = py_round2 (full_sum (filter (\<lambda>t. get_or_unknown (Region t) = r) transactions))
           \<and> transaction_count row
               = length (filter (\<lambda>t. get_or_unknown (Region t) = r) transactions)
           \<and> (fl_gt T (Fin 0) \<longrightarrow>
                 (\<exists>q. fl_div (full_sum (filter (\<lambda>t. get_or_unknown (Region t) = r) transactions)) T
                        = Inr q
                      \<and> percentage row = py_round2 (fl_mul q (Fin 100))))
           \<and> (\<not> fl_gt T (Fin 0) \<longrightarrow> percentage row = Fin 0)"
proof -
  let ?key = "\<lambda>t. get_or_unknown (Region t)"
  let ?step = "\<lambda>t (s, c). (fl_add s (sale_value t), c + (1::nat))"
  from assms have ne: "transactions \<noteq> []"
    by (auto simp: region_wise_sales_def)
  with assms(1) obtain T d result where
      T: "calculate_total_revenue transactions = Inr T"
    and d: "region_loop transactions [] = Inr d"
    and rows: "map_err (region_row T) d = Inr result"
    and res: "res = sort_desc_float nan_rank (\<lambda>x. total_sales (snd x)) result"
    by (auto simp: region_wise_sales_def split: sum.splits)
  from region_loop_Inr [OF region_loop_InrD [OF d], of "[]"] d
  have d_eq: "d = grouped ?key (Fin 0, 0) ?step transactions"
    by (simp add: group_fold_grouped)
  from assms(2) res have "(r, row) \<in> set result"
    by simp
  from map_err_Inr_set [OF rows this]
  obtain r' g c where item: "(r', g, c) \<in> set d" and row: "region_row T (r', g, c) = Inr (r, row)"
    by auto
  note rr = region_row_Inr [OF row]
  from item have "g = full_sum (filter (\<lambda>t. ?key t = r') transactions)
                 \<and> c = length (filter (\<lambda>t. ?key t = r') transactions)"
    unfolding d_eq grouped_def
    by (auto simp: foldl_region_step full_sum_def)
  with rr T calculate_total_revenue_Inr [OF T ne] show ?thesis
    by auto
qed


lemma small_sale_regions:
  "region_wise_sales (\<lambda>xs i. i) small_sale =
     Inr [(''North'', \<lparr>total_sales = Fin (1 / 4), transaction_count = 1,
                        percentage = Fin (1786662414670889 / 17592186044416)\<rparr>)]"
  by code_simp

lemma small_sale_total: "calculate_total_revenue small_sale = Inr (Fin (1 / 4))"
  by code_simp

theorem region_percentage_uses_rounded_total_witness:
  "\<exists>q. fl_div (full_sum (filter (\<lambda>t. get_or_unknown (Region t) = ''North'') small_sale)) (Fin (1 / 4))
          = Inr q
       \<and> Fin (1786662414670889 / 17592186044416) = py_round2 (fl_mul q (Fin 100))"
proof -
  have mem: "(''North'', \<lparr>total_sales = Fin (1 / 4), transaction_count = 1,
                          percentage = Fin (1786662414670889 / 17592186044416)\<rparr>)
               \<in> set [(''North'', \<lparr>total_sales = Fin (1 / 4), transaction_count = 1,
                                    percentage = Fin (1786662414670889 / 17592186044416)\<rparr>)]"
    by simp
  from region_percentage_uses_rounded_total [OF small_sale_regions mem]
  show ?thesis
    by (auto simp: small_sale_total fl_gt_def simp del: py_round2.simps)
qed

text \<open>
  The claim as stated fails: for one sale of one unit at \<open>0.25390625\<close> the total revenue
  is positive and the full-precision quotient is exactly 100, but the denominator used
  is the rounded total \<open>0.25\<close> and the reported percentage is \<open>101.56\<close>.
\<close>

theorem region_percentage_full_precision_counterexample:
  "region_wise_sales (\<lambda>xs i. i) small_sale =
     Inr [(''North'', \<lparr>total_sales = Fin (1 / 4), transaction_count = 1,
                        percentage = Fin (1786662414670889 / 17592186044416)\<rparr>)]
   \<and> full_sum small_sale = Fin (65 / 256)
   \<and> fl_gt (full_sum small_sale) (Fin 0)
   \<and> stated_percentage small_sale ''North'' = Fin 100
   \<and> py_round2 (Fin 100) = Fin 100
   \<and> Fin (1786662414670889 / 17592186044416) \<noteq> Fin 100"
proof -
  have a: "full_sum small_sale = Fin (65 / 256)"
    by code_simp
  have b: "fl_gt (full_sum small_sale) (Fin 0)"
    by (simp add: a fl_gt_def)
  have c: "stated_percentage small_sale ''North'' = Fin 100"
    by code_simp
  have d: "py_round2 (Fin 100) = Fin 100"
    by code_simp
  have e: "Fin (1786662414670889 / 17592186044416) \<noteq> Fin 100"
    by simp
  from small_sale_regions a b c d e show ?thesis by blast
qed

end
